theory Spec2Isabelle
  imports Complex_Main "HOL-Library.Word"
begin

section \<open>Values of the host language\<close>

text \<open>
  A JavaScript string is a sequence of UTF-16 code units: \<open>length\<close>, \<open>substring\<close>,
  \<open>startsWith\<close>, \<open>includes\<close> and \<open>replace\<close> all count and compare code units.
\<close>

type_synonym jsstring = "16 word list"

text \<open>A string literal of the source (ASCII only), as code units.\<close>

definition lit :: "string \<Rightarrow> jsstring" where
  "lit cs = map of_char cs"

text \<open>
  \<open>String.prototype.trim\<close> removes WhiteSpace and LineTerminator code points from both
  ends: TAB, LF, VT, FF, CR, SP, NBSP, U+1680, U+2000..U+200A, U+2028, U+2029, U+202F,
  U+205F, U+3000 and U+FEFF.
\<close>

definition isWhiteSpace :: "16 word \<Rightarrow> bool" where
  "isWhiteSpace c \<longleftrightarrow>
     c \<in> {0x0009, 0x000A, 0x000B, 0x000C, 0x000D, 0x0020, 0x00A0, 0x1680,
          0x2000, 0x2001, 0x2002, 0x2003, 0x2004, 0x2005, 0x2006, 0x2007, 0x2008, 0x2009, 0x200A,
          0x2028, 0x2029, 0x202F, 0x205F, 0x3000, 0xFEFF}"

definition trim :: "jsstring \<Rightarrow> jsstring" where
  "trim s = rev (dropWhile isWhiteSpace (rev (dropWhile isWhiteSpace s)))"

text \<open>\<open>s.startsWith(pat)\<close>: \<open>pat\<close> is a prefix of \<open>s\<close>.\<close>

fun startsWith :: "jsstring \<Rightarrow> jsstring \<Rightarrow> bool" where
  "startsWith s [] = True"
| "startsWith [] (p # ps) = False"
| "startsWith (c # cs) (p # ps) = (c = p \<and> startsWith cs ps)"

text \<open>\<open>s.includes(pat)\<close>: \<open>pat\<close> occurs at some position of \<open>s\<close>.\<close>

fun includesStr :: "jsstring \<Rightarrow> jsstring \<Rightarrow> bool" where
  "includesStr [] pat = (pat = [])"
| "includesStr (c # cs) pat = (startsWith (c # cs) pat \<or> includesStr cs pat)"

text \<open>
  \<open>s.replace(pat, rep)\<close> with a string pattern: the first occurrence of \<open>pat\<close> is
  replaced, the rest of \<open>s\<close> is kept. The replacements of the source (\<open>"/"\<close> and \<open>""\<close>)
  contain no \<open>$\<close>, so no substitution pattern is expanded.
\<close>

fun replace :: "jsstring \<Rightarrow> jsstring \<Rightarrow> jsstring \<Rightarrow> jsstring" where
  "replace [] pat rep = (if pat = [] then rep else [])"
| "replace (c # cs) pat rep =
     (if startsWith (c # cs) pat then rep @ drop (length pat) (c # cs)
      else c # replace cs pat rep)"

text \<open>\<open>s.substring(0, n)\<close> for \<open>0 \<le> n\<close>.\<close>

definition substring0 :: "jsstring \<Rightarrow> nat \<Rightarrow> jsstring" where
  "substring0 s n = take n s"

text \<open>Truthiness of an optional string: \<open>undefined\<close> and \<open>""\<close> are falsy.\<close>

fun truthyStr :: "jsstring option \<Rightarrow> bool" where
  "truthyStr None = False"
| "truthyStr (Some s) = (s \<noteq> [])"

section \<open>Helper functions\<close>

subsection \<open>normalizePath\<close>

lemma startsWith_length: "startsWith s pat \<Longrightarrow> length pat \<le> length s"
  by (induction s pat rule: startsWith.induct) auto

lemma replace_shorter:
  "includesStr s pat \<Longrightarrow> length rep < length pat \<Longrightarrow> length (replace s pat rep) < length s"
proof (induction s)
  case Nil
  then show ?case by simp
next
  case (Cons c cs)
  show ?case
  proof (cases "startsWith (c # cs) pat")
    case True
    from startsWith_length [OF True] Cons.prems(2) show ?thesis
      using True by simp
  next
    case False
    with Cons show ?thesis by simp
  qed
qed

text \<open>The loop \<open>while (s.includes("//")) s = s.replace("//", "/")\<close>.\<close>

function collapseSlashes :: "jsstring \<Rightarrow> jsstring" where
  "collapseSlashes s =
     (if includesStr s (lit ''//'') then collapseSlashes (replace s (lit ''//'') (lit ''/''))
      else s)"
  by pat_completeness auto
termination
  by (relation "measure length") (auto intro: replace_shorter simp: lit_def)

declare collapseSlashes.simps [simp del]

definition normalizePath :: "jsstring option \<Rightarrow> jsstring" where
  "normalizePath p =
     (if \<not> truthyStr p then lit ''/''
      else
        let s = trim (the p);
            s = (if \<not> startsWith s (lit ''/'') then lit ''/'' @ s else s)
        in collapseSlashes s)"

text \<open>
  What the specification asks of the loop, written without it: in one pass, every slash that
  is followed by another slash is dropped, so that each run of slashes becomes a single one
  and every other code unit stays where it is.
\<close>

fun collapsedRuns :: "jsstring \<Rightarrow> jsstring" where
  "collapsedRuns (a # b # cs) =
     (if a = 0x2F \<and> b = 0x2F then collapsedRuns (b # cs) else a # collapsedRuns (b # cs))"
| "collapsedRuns cs = cs"

subsection \<open>truncateDescription\<close>

definition MAX_DESCRIPTION_LENGTH :: nat where
  "MAX_DESCRIPTION_LENGTH = 160"

text \<open>
  \<open>maxLength\<close> is a non-negative integer; \<open>substring\<close> clamps a negative end to \<open>0\<close>,
  which is what the truncated subtraction of \<open>nat\<close> gives for \<open>maxLength < 3\<close>.
\<close>

definition truncateDescription :: "jsstring \<Rightarrow> nat \<Rightarrow> jsstring" where
  "truncateDescription desc maxLength =
     (if length desc \<le> maxLength then desc
      else substring0 desc (maxLength - 3) @ lit ''...'')"

section \<open>Numbers\<close>

text \<open>
  A JavaScript number is \<open>NaN\<close>, an infinity, or a finite double, carried here by its exact
  rational value (\<open>+0\<close> and \<open>-0\<close> are both \<open>Fin 0\<close>: they are equally falsy and
  \<open>toFixed\<close> renders them alike).
\<close>

datatype jsnum = NaN | PosInfinity | NegInfinity | Fin rat

fun truthyNum :: "jsnum option \<Rightarrow> bool" where
  "truthyNum None = False"
| "truthyNum (Some NaN) = False"
| "truthyNum (Some (Fin r)) = (r \<noteq> 0)"
| "truthyNum (Some PosInfinity) = True"
| "truthyNum (Some NegInfinity) = True"

definition digitChar :: "nat \<Rightarrow> 16 word" where
  "digitChar d = 0x30 + of_nat d"

definition isDigit :: "16 word \<Rightarrow> bool" where
  "isDigit c \<longleftrightarrow> 0x30 \<le> c \<and> c \<le> 0x39"

text \<open>The digits of the decimal representation of \<open>n\<close> (\<open>"0"\<close> for \<open>0\<close>).\<close>

fun digitsOf :: "nat \<Rightarrow> jsstring" where
  "digitsOf n = (if n < 10 then [digitChar n] else digitsOf (n div 10) @ [digitChar (n mod 10)])"

declare digitsOf.simps [simp del]

text \<open>
  The last steps of \<open>toFixed\<close> for \<open>f \<noteq> 0\<close>: pad the digits \<open>m\<close> with zeros to \<open>f + 1\<close>
  of them and put the decimal point before the last \<open>f\<close>.
\<close>

definition insertPoint :: "jsstring \<Rightarrow> nat \<Rightarrow> jsstring" where
  "insertPoint m f =
     (let k = length m;
          m = (if k \<le> f then replicate (f + 1 - k) 0x30 @ m else m);
          k = (if k \<le> f then f + 1 else k)
      in take (k - f) m @ lit ''.'' @ drop (k - f) m)"

text \<open>
  \<open>Number.prototype.toFixed(f)\<close> for \<open>0 \<le> f \<le> 100\<close> (the source passes \<open>2\<close>), following
  ECMA-262: a non-finite number is rendered by \<open>Number::toString\<close>; otherwise the sign is
  split off, a magnitude of at least \<open>10^21\<close> is rendered by \<open>Number::toString\<close> (passed in
  as \<open>numberToString\<close>), and a smaller one by the integer \<open>n\<close> nearest to \<open>x * 10^f\<close>
  (the larger one on a tie) with a decimal point before its last \<open>f\<close> digits.
\<close>

definition toFixed :: "(rat \<Rightarrow> jsstring) \<Rightarrow> jsnum \<Rightarrow> nat \<Rightarrow> jsstring" where
  "toFixed numberToString v f =
     (case v of
        NaN \<Rightarrow> lit ''NaN''
      | PosInfinity \<Rightarrow> lit ''Infinity''
      | NegInfinity \<Rightarrow> lit ''-Infinity''
      | Fin r \<Rightarrow>
          let s = (if r < 0 then lit ''-'' else []);
              x = (if r < 0 then - r else r)
          in if 10 ^ 21 \<le> x then s @ numberToString x
             else
               let n = nat \<lfloor>x * 10 ^ f + 1 / 2\<rfloor>;
                   m = digitsOf n;
                   m = (if f \<noteq> 0 then insertPoint m f else m)
               in s @ m)"

text \<open>
  The shape that "rendered with exactly two decimal digits" asks of a string: an optional
  minus sign, one or more digits, a decimal point, and two digits.
\<close>

definition twoDecimalDigits :: "jsstring \<Rightarrow> bool" where
  "twoDecimalDigits s \<longleftrightarrow>
     (let t = (if s \<noteq> [] \<and> hd s = 0x2D then tl s else s);
          k = length t
      in 4 \<le> k
         \<and> list_all isDigit (take (k - 3) t)
         \<and> t ! (k - 3) = 0x2E
         \<and> isDigit (t ! (k - 2)) \<and> isDigit (t ! (k - 1)))"

section \<open>The platform and the configuration\<close>

datatype error = TypeError

text \<open>
  What the module takes from the platform. \<open>newURL input base\<close> is
  \<open>new URL(input, base)\<close> (\<open>new URL(input)\<close> when \<open>base\<close> is \<open>None\<close>): it throws a
  \<open>TypeError\<close> on an invalid URL and otherwise yields a URL object, carried by its \<open>href\<close>,
  which is what \<open>toString()\<close> returns.
\<close>

record platform =
  newURL :: "jsstring \<Rightarrow> jsstring option \<Rightarrow> error + jsstring"
  toUpperCase :: "jsstring \<Rightarrow> jsstring"
  numberToString :: "rat \<Rightarrow> jsstring"

text \<open>
  The fields of \<open>appConfig\<close> (module \<open>@/config/appConfig\<close>) that this module reads; the
  optional blocks are the ones read through \<open>?.\<close>.
\<close>

record seoSocial =
  social_twitter :: "jsstring option"

record seoConfig =
  canonicalBase :: "jsstring option"
  defaultLocale :: "jsstring option"
  social :: "seoSocial option"

record ogConfig =
  ogc_type :: "jsstring option"
  ogc_siteName :: "jsstring option"
  ogc_imageWidth :: "jsnum option"
  ogc_imageHeight :: "jsnum option"
  ogc_locale :: "jsstring option"

record pageDefaults =
  robotsIndex :: "bool option"
  robotsFollow :: "bool option"

record iconsConfig =
  faviconAny :: "jsstring option"
  icon32 :: "jsstring option"
  icon48 :: "jsstring option"
  icon192 :: "jsstring option"
  icon512 :: "jsstring option"
  appleTouch :: "jsstring option"

record appConfig =
  cfg_name :: jsstring
  cfg_description :: jsstring
  cfg_url :: jsstring
  cfg_lang :: jsstring
  cfg_logo :: jsstring
  cfg_seo :: "seoConfig option"
  cfg_og :: "ogConfig option"
  cfg_pageDefaults :: "pageDefaults option"
  cfg_icons :: "iconsConfig option"

text \<open>The two environment variables read at module load.\<close>

record processEnv =
  NEXT_PUBLIC_GOOGLE_VERIFICATION :: "jsstring option"
  NEXT_PUBLIC_YANDEX_VERIFICATION :: "jsstring option"

section \<open>Type definitions\<close>

record authorInfo =
  author_name :: jsstring
  author_email :: "jsstring option"
  author_twitter :: "jsstring option"
  author_url :: "jsstring option"
  author_jobTitle :: "jsstring option"
  author_bio :: "jsstring option"
  author_image :: "jsstring option"
  author_sameAs :: "jsstring list option"

record constructArgs =
  arg_title :: "jsstring option"
  arg_description :: "jsstring option"
  arg_image :: "jsstring option"
  arg_pathname :: "jsstring option"
  arg_locale :: "jsstring option"
  arg_noIndex :: "bool option"
  arg_noFollow :: "bool option"

section \<open>Constants\<close>

definition DEFAULT_AUTHOR :: authorInfo where
  "DEFAULT_AUTHOR =
     \<lparr>author_name = lit ''Roman Bolshiyanov'',
      author_email = Some (lit ''roman@aifa.dev''),
      author_twitter = Some (lit ''@aifa_agi''),
      author_url = Some (lit ''https://github.com/aifa-agi''),
      author_jobTitle = Some (lit ''Founder & Lead Developer''),
      author_bio = Some (lit ''Full-stack developer specializing in AI-powered SaaS applications''),
      author_image = None,
      author_sameAs = Some [lit ''https://github.com/aifa-agi'', lit ''https://twitter.com/aifa_agi'']\<rparr>"

definition DEFAULT_CREATOR :: jsstring where
  "DEFAULT_CREATOR = lit ''aifa.dev''"

record icon =
  icon_url :: jsstring
  icon_rel :: jsstring
  icon_sizes :: jsstring
  icon_type :: jsstring

text \<open>
  One block of \<open>CACHED_ICONS\<close>: the icon is pushed when its path is configured and is a
  non-empty string.
\<close>

definition pushIcon :: "jsstring option \<Rightarrow> jsstring \<Rightarrow> jsstring \<Rightarrow> jsstring \<Rightarrow> icon list \<Rightarrow> icon list" where
  "pushIcon path rel sizes type icons =
     (case path of
        None \<Rightarrow> icons
      | Some src \<Rightarrow>
          if src \<noteq> [] \<and> 0 < length src
          then icons @ [\<lparr>icon_url = src, icon_rel = rel, icon_sizes = sizes, icon_type = type\<rparr>]
          else icons)"

definition iconPath :: "appConfig \<Rightarrow> (iconsConfig \<Rightarrow> jsstring option) \<Rightarrow> jsstring option" where
  "iconPath cfg field = (case cfg_icons cfg of None \<Rightarrow> None | Some ic \<Rightarrow> field ic)"

definition CACHED_ICONS :: "appConfig \<Rightarrow> icon list" where
  "CACHED_ICONS cfg =
     (let icons = [];
          icons = pushIcon (iconPath cfg faviconAny) (lit ''icon'') (lit ''any'') (lit ''image/x-icon'') icons;
          icons = pushIcon (iconPath cfg icon32) (lit ''icon'') (lit ''32x32'') (lit ''image/png'') icons;
          icons = pushIcon (iconPath cfg icon48) (lit ''icon'') (lit ''48x48'') (lit ''image/png'') icons;
          icons = pushIcon (iconPath cfg icon192) (lit ''icon'') (lit ''192x192'') (lit ''image/png'') icons;
          icons = pushIcon (iconPath cfg icon512) (lit ''icon'') (lit ''512x512'') (lit ''image/png'') icons;
          icons = pushIcon (iconPath cfg appleTouch) (lit ''apple-touch-icon'') (lit ''180x180'') (lit ''image/png'') icons
      in icons)"

subsection \<open>Verification tokens\<close>

text \<open>
  The module-level object \<open>verification\<close>, as the list of its properties in insertion
  order. \<open>process.env.X?.trim()\<close> is \<open>undefined\<close> for an unset variable.
\<close>

definition verification :: "processEnv \<Rightarrow> (string \<times> jsstring) list" where
  "verification env =
     (let verification = [];
          googleVerification = map_option trim (NEXT_PUBLIC_GOOGLE_VERIFICATION env);
          yandexVerification = map_option trim (NEXT_PUBLIC_YANDEX_VERIFICATION env);
          verification =
            (if truthyStr googleVerification \<and> 0 < length (the googleVerification)
             then verification @ [(''google'', the googleVerification)] else verification);
          verification =
            (if truthyStr yandexVerification \<and> 0 < length (the yandexVerification)
             then verification @ [(''yandex'', the yandexVerification)] else verification)
      in verification)"

subsection \<open>buildPersonSchema\<close>

record person =
  person_type :: jsstring
  person_name :: jsstring
  person_url :: "jsstring option"
  person_email :: "jsstring option"
  person_image :: "jsstring option"
  person_description :: "jsstring option"
  person_jobTitle :: "jsstring option"
  person_sameAs :: "jsstring list option"

text \<open>\<open>if (x) person.f = x\<close>: the field is set when \<open>x\<close> is truthy.\<close>

definition setIfTruthy :: "jsstring option \<Rightarrow> jsstring option" where
  "setIfTruthy x = (if truthyStr x then x else None)"

text \<open>The local array \<open>sameAsUrls\<close> of \<open>buildPersonSchema\<close>, as it is when it is tested.\<close>

definition sameAsUrls :: "authorInfo \<Rightarrow> jsstring list" where
  "sameAsUrls author =
     (let urls = [];
          urls = (case author_sameAs author of None \<Rightarrow> urls | Some others \<Rightarrow> urls @ others);
          urls =
            (if truthyStr (author_twitter author)
                \<and> \<not> startsWith (the (author_twitter author)) (lit ''http'')
             then
               let handle = replace (the (author_twitter author)) (lit ''@'') []
               in urls @ [lit ''https://twitter.com/'' @ handle]
             else urls)
      in urls)"

text \<open>
  The second push of \<open>buildPersonSchema\<close> on its own: the profile URL derived from the
  Twitter handle, when the handle is truthy and does not start with \<open>http\<close>.
\<close>

definition handleUrl :: "authorInfo \<Rightarrow> jsstring list" where
  "handleUrl author =
     (case author_twitter author of
        None \<Rightarrow> []
      | Some t \<Rightarrow>
          if t \<noteq> [] \<and> \<not> startsWith t (lit ''http'')
          then [lit ''https://twitter.com/'' @ replace t (lit ''@'') []] else [])"

definition buildPersonSchema :: "authorInfo \<Rightarrow> person" where
  "buildPersonSchema author =
     \<lparr>person_type = lit ''Person'',
      person_name = author_name author,
      person_url = setIfTruthy (author_url author),
      person_email = setIfTruthy (author_email author),
      person_image = setIfTruthy (author_image author),
      person_description = setIfTruthy (author_bio author),
      person_jobTitle = setIfTruthy (author_jobTitle author),
      person_sameAs = (if 0 < length (sameAsUrls author) then Some (sameAsUrls author) else None)\<rparr>"

section \<open>Main function\<close>

record authorRef =
  ref_name :: jsstring
  ref_url :: "jsstring option"

record ogImage =
  ogi_url :: jsstring
  ogi_width :: jsnum
  ogi_height :: jsnum
  ogi_alt :: jsstring

record openGraph =
  og_type :: jsstring
  og_title :: jsstring
  og_description :: jsstring
  og_url :: jsstring
  og_siteName :: jsstring
  og_images :: "ogImage list"
  og_locale :: jsstring

record twitterCard =
  tw_card :: jsstring
  tw_title :: jsstring
  tw_description :: jsstring
  tw_images :: "jsstring list"
  tw_creator :: "jsstring option"

record robots =
  robots_index :: bool
  robots_follow :: bool

record metadata =
  md_title :: jsstring
  md_description :: jsstring
  md_metadataBase :: jsstring
  md_canonical :: jsstring
  md_manifest :: jsstring
  md_icons :: "icon list"
  md_authors :: "authorRef list"
  md_creator :: jsstring
  md_publisher :: jsstring
  md_openGraph :: openGraph
  md_twitter :: twitterCard
  md_robots :: robots
  md_verification :: "(string \<times> jsstring) list option"

text \<open>\<open>a ?? b\<close> on an optional value.\<close>

definition orElse :: "'a option \<Rightarrow> 'a \<Rightarrow> 'a" where
  "orElse a b = (case a of None \<Rightarrow> b | Some v \<Rightarrow> v)"

text \<open>\<open>appConfig.block?.field\<close>: \<open>undefined\<close> when the block is.\<close>

definition optField :: "'b option \<Rightarrow> ('b \<Rightarrow> 'a option) \<Rightarrow> 'a option" where
  "optField block field = (case block of None \<Rightarrow> None | Some b \<Rightarrow> field b)"

text \<open>The argument object \<open>{}\<close>.\<close>

definition emptyArgs :: constructArgs where
  "emptyArgs =
     \<lparr>arg_title = None, arg_description = None, arg_image = None, arg_pathname = None,
      arg_locale = None, arg_noIndex = None, arg_noFollow = None\<rparr>"

text \<open>
  \<open>constructMetadata\<close>. An omitted argument object is \<open>{}\<close>; a destructured field takes
  its default when it is \<open>undefined\<close>. \<open>getOgImagePath\<close> is the value that the function of
  that name (module \<open>@/config/appConfig\<close>) returns. The two \<open>new URL\<close> calls are made in
  the order of the source, and the first that throws ends the call.
\<close>

definition constructMetadata ::
  "platform \<Rightarrow> processEnv \<Rightarrow> appConfig \<Rightarrow> jsstring \<Rightarrow> constructArgs option \<Rightarrow> error + metadata" where
  "constructMetadata P env appCfg getOgImagePath args0 =
     (let args = orElse args0 emptyArgs;
          title = orElse (arg_title args) (cfg_name appCfg);
          description = orElse (arg_description args) (cfg_description appCfg);
          image = orElse (arg_image args) getOgImagePath;
          pathname = arg_pathname args;
          locale = orElse (arg_locale args)
                     (orElse (optField (cfg_seo appCfg) defaultLocale) (cfg_lang appCfg));
          noIndex = orElse (arg_noIndex args) False;
          noFollow = orElse (arg_noFollow args) False;
          base = orElse (optField (cfg_seo appCfg) canonicalBase) (cfg_url appCfg);
          path = normalizePath pathname
      in case newURL P path (Some base) of
           Inl e \<Rightarrow> Inl e
         | Inr canonical \<Rightarrow>
             let validDescription = truncateDescription description MAX_DESCRIPTION_LENGTH
             in case newURL P (cfg_url appCfg) None of
                  Inl e \<Rightarrow> Inl e
                | Inr metadataBase \<Rightarrow>
                    Inr \<lparr>md_title = title,
                         md_description = validDescription,
                         md_metadataBase = metadataBase,
                         md_canonical = canonical,
                         md_manifest = lit ''/manifest.webmanifest'',
                         md_icons = CACHED_ICONS appCfg,
                         md_authors =
                           [\<lparr>ref_name = author_name DEFAULT_AUTHOR, ref_url = author_url DEFAULT_AUTHOR\<rparr>],
                         md_creator = DEFAULT_CREATOR,
                         md_publisher = DEFAULT_CREATOR,
                         md_openGraph =
                           \<lparr>og_type = orElse (optField (cfg_og appCfg) ogc_type) (lit ''website''),
                            og_title = title,
                            og_description = validDescription,
                            og_url = canonical,
                            og_siteName = orElse (optField (cfg_og appCfg) ogc_siteName) (cfg_name appCfg),
                            og_images =
                              [\<lparr>ogi_url = image,
                                ogi_width = orElse (optField (cfg_og appCfg) ogc_imageWidth) (Fin 1200),
                                ogi_height = orElse (optField (cfg_og appCfg) ogc_imageHeight) (Fin 630),
                                ogi_alt = validDescription\<rparr>],
                            og_locale =
                              orElse (optField (cfg_og appCfg) ogc_locale)
                                (locale @ lit ''_'' @ toUpperCase P locale)\<rparr>,
                         md_twitter =
                           \<lparr>tw_card = lit ''summary_large_image'',
                            tw_title = title,
                            tw_description = validDescription,
                            tw_images = [image],
                            tw_creator =
                              optField (optField (cfg_seo appCfg) social) social_twitter\<rparr>,
                         md_robots =
                           \<lparr>robots_index = (\<not> noIndex \<and> orElse (optField (cfg_pageDefaults appCfg) robotsIndex) True),
                            robots_follow = (\<not> noFollow \<and> orElse (optField (cfg_pageDefaults appCfg) robotsFollow) True)\<rparr>,
                         md_verification =
                           (if 0 < length (map fst (verification env))
                            then Some (verification env) else None)\<rparr>)"

text \<open>Both \<open>new URL\<close> calls of \<open>constructMetadata\<close> return.\<close>

definition urlsResolve :: "platform \<Rightarrow> appConfig \<Rightarrow> constructArgs option \<Rightarrow> bool" where
  "urlsResolve P appCfg args0 \<longleftrightarrow>
     \<not> isl (newURL P (normalizePath (arg_pathname (orElse args0 emptyArgs)))
              (Some (orElse (optField (cfg_seo appCfg) canonicalBase) (cfg_url appCfg))))
     \<and> \<not> isl (newURL P (cfg_url appCfg) None)"

section \<open>Structured data helper functions\<close>

subsection \<open>buildArticleSchema\<close>

record articleArgs =
  art_headline :: jsstring
  art_datePublished :: jsstring
  art_dateModified :: "jsstring option"
  art_author :: "authorInfo + authorInfo list"
  art_image :: "jsstring option"
  art_description :: "jsstring option"

record imageObject =
  io_type :: jsstring
  io_url :: jsstring

record organization =
  org_type :: jsstring
  org_name :: jsstring
  org_logo :: imageObject

record article =
  article_context :: jsstring
  article_type :: jsstring
  headline :: jsstring
  datePublished :: jsstring
  dateModified :: jsstring
  article_author :: "person + person list"
  article_description :: "jsstring option"
  publisher :: organization
  article_image :: "imageObject option"

text \<open>\<open>a || b\<close> on an optional string: \<open>b\<close> when \<open>a\<close> is \<open>undefined\<close> or \<open>""\<close>.\<close>

definition orStr :: "jsstring option \<Rightarrow> jsstring \<Rightarrow> jsstring" where
  "orStr a b = (if truthyStr a then the a else b)"

definition buildArticleSchema :: "platform \<Rightarrow> appConfig \<Rightarrow> articleArgs \<Rightarrow> error + article" where
  "buildArticleSchema P appCfg args =
     (let authorSchema =
            (case art_author args of
               Inr authors \<Rightarrow> Inr (map (\<lambda>a. buildPersonSchema a) authors)
             | Inl author \<Rightarrow> Inl (buildPersonSchema author))
      in case newURL P (cfg_logo appCfg) (Some (cfg_url appCfg)) of
           Inl e \<Rightarrow> Inl e
         | Inr logoUrl \<Rightarrow>
             Inr \<lparr>article_context = lit ''https://schema.org'',
                  article_type = lit ''Article'',
                  headline = art_headline args,
                  datePublished = art_datePublished args,
                  dateModified = orStr (art_dateModified args) (art_datePublished args),
                  article_author = authorSchema,
                  article_description = setIfTruthy (art_description args),
                  publisher =
                    \<lparr>org_type = lit ''Organization'',
                     org_name = DEFAULT_CREATOR,
                     org_logo = \<lparr>io_type = lit ''ImageObject'', io_url = logoUrl\<rparr>\<rparr>,
                  article_image =
                    (if truthyStr (art_image args)
                     then Some \<lparr>io_type = lit ''ImageObject'', io_url = the (art_image args)\<rparr>
                     else None)\<rparr>)"

subsection \<open>buildProductSchema\<close>

record productArgs =
  prod_name :: jsstring
  prod_description :: "jsstring option"
  prod_price :: jsnum
  prod_currency :: jsstring
  prod_rating :: "jsnum option"
  prod_reviewCount :: "jsnum option"
  prod_image :: "jsstring option"
  prod_brand :: "jsstring option"

record brandObject =
  brand_type :: jsstring
  brand_name :: jsstring

record offer =
  offer_type :: jsstring
  price :: jsstring
  priceCurrency :: jsstring
  availability :: jsstring

record aggregateRatingObject =
  rating_type :: jsstring
  ratingValue :: jsnum
  reviewCount :: jsnum

record product =
  product_context :: jsstring
  product_type :: jsstring
  product_name :: jsstring
  product_description :: "jsstring option"
  product_image :: "jsstring option"
  brand :: "brandObject option"
  offers :: offer
  aggregateRating :: "aggregateRatingObject option"

text \<open>
  \<open>...(rating && reviewCount && {aggregateRating: ...})\<close>: the spread adds the field when
  both operands are truthy, and nothing when the conjunction is a falsy value.
\<close>

definition buildProductSchema :: "platform \<Rightarrow> productArgs \<Rightarrow> product" where
  "buildProductSchema P args =
     \<lparr>product_context = lit ''https://schema.org'',
      product_type = lit ''Product'',
      product_name = prod_name args,
      product_description = setIfTruthy (prod_description args),
      product_image = setIfTruthy (prod_image args),
      brand =
        (if truthyStr (prod_brand args)
         then Some \<lparr>brand_type = lit ''Brand'', brand_name = the (prod_brand args)\<rparr>
         else None),
      offers =
        \<lparr>offer_type = lit ''Offer'',
         price = toFixed (numberToString P) (prod_price args) 2,
         priceCurrency = prod_currency args,
         availability = lit ''https://schema.org/InStock''\<rparr>,
      aggregateRating =
        (if truthyNum (prod_rating args) \<and> truthyNum (prod_reviewCount args)
         then Some \<lparr>rating_type = lit ''AggregateRating'',
                    ratingValue = the (prod_rating args),
                    reviewCount = the (prod_reviewCount args)\<rparr>
         else None)\<rparr>"

subsection \<open>buildBreadcrumbSchema\<close>

record breadcrumb =
  crumb_name :: jsstring
  crumb_url :: jsstring

record listItem =
  item_type :: jsstring
  position :: nat
  item_name :: jsstring
  item :: jsstring

record breadcrumbList =
  list_context :: jsstring
  list_type :: jsstring
  itemListElement :: "listItem list"

text \<open>
  \<open>breadcrumbs.map((item, index) => ...)\<close> from position \<open>index\<close> on: the callback runs on
  the elements in order, and a \<open>new URL\<close> that throws ends the call.
\<close>

fun mapBreadcrumbs :: "platform \<Rightarrow> appConfig \<Rightarrow> nat \<Rightarrow> breadcrumb list \<Rightarrow> error + listItem list" where
  "mapBreadcrumbs P appCfg index [] = Inr []"
| "mapBreadcrumbs P appCfg index (b # rest) =
     (case newURL P (crumb_url b) (Some (cfg_url appCfg)) of
        Inl e \<Rightarrow> Inl e
      | Inr href \<Rightarrow>
          (case mapBreadcrumbs P appCfg (index + 1) rest of
             Inl e \<Rightarrow> Inl e
           | Inr items \<Rightarrow>
               Inr (\<lparr>item_type = lit ''ListItem'', position = index + 1,
                     item_name = crumb_name b, item = href\<rparr> # items)))"

definition buildBreadcrumbSchema :: "platform \<Rightarrow> appConfig \<Rightarrow> breadcrumb list \<Rightarrow> error + breadcrumbList" where
  "buildBreadcrumbSchema P appCfg breadcrumbs =
     (case mapBreadcrumbs P appCfg 0 breadcrumbs of
        Inl e \<Rightarrow> Inl e
      | Inr items \<Rightarrow>
          Inr \<lparr>list_context = lit ''https://schema.org'',
               list_type = lit ''BreadcrumbList'',
               itemListElement = items\<rparr>)"

section \<open>A sample platform and configuration\<close>

text \<open>
  A platform to evaluate examples on. Its \<open>newURL\<close> puts the input behind the base; this
  is the \<open>href\<close> that \<open>new URL\<close> gives for a path such as \<open>/blog\<close> against a bare origin
  such as \<open>https://example.com\<close>. Its \<open>numberToString\<close> is the rendering of \<open>10^21\<close>,
  and its \<open>toUpperCase\<close> leaves the string as it is. No theorem about the module depends
  on these choices: the theorems hold for every platform.
\<close>

fun sampleNewURL :: "jsstring \<Rightarrow> jsstring option \<Rightarrow> error + jsstring" where
  "sampleNewURL input None = Inr input"
| "sampleNewURL input (Some base) = Inr (base @ input)"

fun sampleNumberToString :: "rat \<Rightarrow> jsstring" where
  "sampleNumberToString x = lit ''1e+21''"

definition samplePlatform :: platform where
  "samplePlatform =
     \<lparr>newURL = sampleNewURL, toUpperCase = id, numberToString = sampleNumberToString\<rparr>"

definition sampleConfig :: appConfig where
  "sampleConfig =
     \<lparr>cfg_name = lit ''Site'', cfg_description = lit ''A site'',
      cfg_url = lit ''https://example.com'', cfg_lang = lit ''en'', cfg_logo = lit ''/logo.png'',
      cfg_seo = None, cfg_og = None, cfg_pageDefaults = None, cfg_icons = None\<rparr>"

definition sampleEnv :: processEnv where
  "sampleEnv =
     \<lparr>NEXT_PUBLIC_GOOGLE_VERIFICATION = Some (lit '' abc ''),
      NEXT_PUBLIC_YANDEX_VERIFICATION = Some (lit ''  '')\<rparr>"

text \<open>An author with a name only, an article by the default author, a trail, a product.\<close>

definition bareAuthor :: "jsstring \<Rightarrow> authorInfo" where
  "bareAuthor n =
     \<lparr>author_name = n, author_email = None, author_twitter = None, author_url = None,
      author_jobTitle = None, author_bio = None, author_image = None, author_sameAs = None\<rparr>"

definition sampleArticle :: "jsstring option \<Rightarrow> articleArgs" where
  "sampleArticle modified =
     \<lparr>art_headline = lit ''Hello'', art_datePublished = lit ''2024-01-01'',
      art_dateModified = modified, art_author = Inl DEFAULT_AUTHOR,
      art_image = None, art_description = None\<rparr>"

definition sampleCrumbs :: "breadcrumb list" where
  "sampleCrumbs =
     [\<lparr>crumb_name = lit ''Home'', crumb_url = lit ''/''\<rparr>,
      \<lparr>crumb_name = lit ''Blog'', crumb_url = lit ''/blog''\<rparr>]"

definition sampleProduct :: "jsnum \<Rightarrow> jsnum option \<Rightarrow> jsnum option \<Rightarrow> productArgs" where
  "sampleProduct p rating count =
     \<lparr>prod_name = lit ''Widget'', prod_description = None, prod_price = p,
      prod_currency = lit ''USD'', prod_rating = rating, prod_reviewCount = count,
      prod_image = None, prod_brand = None\<rparr>"

section \<open>Properties\<close>

subsection \<open>String literals\<close>

lemma lit_Nil: "lit [] = []"
  by (simp add: lit_def)

lemma lit_Cons: "lit (c # cs) = of_char c # lit cs"
  by (simp add: lit_def)

lemma unat_of_char: "unat (of_char c :: 16 word) = of_char c"
proof -
  have lt: "(of_char c :: nat) < 2 ^ 16"
    by (rule less_trans [OF nat_of_char_less_256]) simp
  have "(of_char c :: 16 word) = of_nat (of_char c)"
    by (simp add: of_nat_of_char)
  then show ?thesis using lt by (simp add: unat_of_nat)
qed

lemma of_char_word_eq: "(of_char c :: 16 word) = of_char d \<longleftrightarrow> c = d"
proof
  assume "(of_char c :: 16 word) = of_char d"
  then have "unat (of_char c :: 16 word) = unat (of_char d :: 16 word)" by simp
  then show "c = d" by (simp add: unat_of_char)
qed simp


subsection \<open>Path normalisation\<close>

lemma lit_slash: "lit ''/'' = [0x2F]"
  by (simp add: lit_def)

lemma lit_dslash: "lit ''//'' = [0x2F, 0x2F]"
  by (simp add: lit_def)

lemma includes_pair:
  "includesStr s [a, b] \<longleftrightarrow> (\<exists>i. Suc i < length s \<and> s ! i = a \<and> s ! Suc i = b)"
proof (induction s)
  case Nil
  then show ?case by simp
next
  case (Cons c cs)
  have sw: "startsWith (c # cs) [a, b] \<longleftrightarrow> (Suc 0 < length (c # cs) \<and> (c # cs) ! 0 = a \<and> (c # cs) ! Suc 0 = b)"
    by (cases cs) auto
  show ?case
  proof
    assume "includesStr (c # cs) [a, b]"
    then consider "startsWith (c # cs) [a, b]" | "includesStr cs [a, b]" by auto
    then show "\<exists>i. Suc i < length (c # cs) \<and> (c # cs) ! i = a \<and> (c # cs) ! Suc i = b"
    proof cases
      case 1
      with sw show ?thesis by blast
    next
      case 2
      with Cons.IH obtain i where "Suc i < length cs" "cs ! i = a" "cs ! Suc i = b" by blast
      then have "Suc (Suc i) < length (c # cs) \<and> (c # cs) ! Suc i = a \<and> (c # cs) ! Suc (Suc i) = b"
        by simp
      then show ?thesis by blast
    qed
  next
    assume "\<exists>i. Suc i < length (c # cs) \<and> (c # cs) ! i = a \<and> (c # cs) ! Suc i = b"
    then obtain i where i: "Suc i < length (c # cs)" "(c # cs) ! i = a" "(c # cs) ! Suc i = b" by blast
    show "includesStr (c # cs) [a, b]"
    proof (cases i)
      case 0
      with i sw show ?thesis by simp
    next
      case (Suc j)
      with i have "Suc j < length cs \<and> cs ! j = a \<and> cs ! Suc j = b" by simp
      with Cons.IH have "includesStr cs [a, b]" by blast
      then show ?thesis by simp
    qed
  qed
qed

lemma replace_keeps_head:
  "replace (c # cs) [c, c] [c] = c # tl (replace (c # cs) [c, c] [c])"
  by (cases cs) auto

lemma collapse_no_double: "\<not> includesStr (collapseSlashes s) (lit ''//'')"
proof (induction s rule: collapseSlashes.induct)
  case (1 s)
  then show ?case by (subst collapseSlashes.simps) simp
qed

lemma collapse_head:
  "\<exists>t. collapseSlashes (0x2F # cs) = 0x2F # t"
proof (induction "0x2F # cs" arbitrary: cs rule: collapseSlashes.induct)
  case 1
  show ?case
  proof (cases "includesStr (0x2F # cs) (lit ''//'')")
    case True
    obtain t where t: "replace (0x2F # cs) (lit ''//'') (lit ''/'') = 0x2F # t"
      using replace_keeps_head [of "0x2F" cs] by (simp add: lit_slash lit_dslash)
    from 1 [OF True t] show ?thesis
      using True t by (subst collapseSlashes.simps) simp
  next
    case False
    then show ?thesis by (subst collapseSlashes.simps) simp
  qed
qed

lemma normalizePath_head: "\<exists>t. normalizePath p = 0x2F # t"
proof (cases "truthyStr p")
  case False
  then show ?thesis by (simp add: normalizePath_def lit_slash)
next
  case True
  show ?thesis
  proof (cases "startsWith (trim (the p)) (lit ''/'')")
    case sw: True
    then obtain cs where "trim (the p) = 0x2F # cs"
      by (cases "trim (the p)") (auto simp: lit_slash)
    with True sw collapse_head [of cs] show ?thesis
      by (simp add: normalizePath_def)
  next
    case sw: False
    with True collapse_head [of "trim (the p)"] show ?thesis
      by (simp add: normalizePath_def lit_slash)
  qed
qed

lemma normalizePath_no_double: "\<not> includesStr (normalizePath p) (lit ''//'')"
  using collapse_no_double by (simp add: normalizePath_def Let_def lit_def)

lemma replace_pair_head:
  "replace (c # cs) [a, a] [a] = c # tl (replace (c # cs) [a, a] [a])"
  by (cases cs) auto

lemma collapsedRuns_id:
  "\<not> includesStr s [0x2F, 0x2F] \<Longrightarrow> collapsedRuns s = s"
  by (induction s rule: collapsedRuns.induct) auto

lemma collapsedRuns_replace:
  "collapsedRuns (replace s [0x2F, 0x2F] [0x2F]) = collapsedRuns s"
proof (induction s rule: collapsedRuns.induct)
  case (1 a b cs)
  show ?case
  proof (cases "a = 0x2F \<and> b = 0x2F")
    case True
    then show ?thesis by simp
  next
    case False
    obtain t where t: "replace (b # cs) [0x2F, 0x2F] [0x2F] = b # t"
      using replace_pair_head [of b cs "0x2F"] by blast
    from False have r: "replace (a # b # cs) [0x2F, 0x2F] [0x2F] = a # b # t"
      using t by auto
    have ih: "collapsedRuns (b # t) = collapsedRuns (b # cs)"
      using 1(2) [OF False] t by simp
    from False have "collapsedRuns (a # b # t) = a # collapsedRuns (b # t)"
      by auto
    moreover from False have "collapsedRuns (a # b # cs) = a # collapsedRuns (b # cs)"
      by auto
    ultimately show ?thesis
      by (simp only: r ih)
  qed
qed simp_all

lemma collapseSlashes_runs: "collapseSlashes s = collapsedRuns s"
proof (induction s rule: collapseSlashes.induct)
  case (1 s)
  show ?case
  proof (cases "includesStr s (lit ''//'')")
    case True
    with 1 have "collapseSlashes s = collapsedRuns (replace s (lit ''//'') (lit ''/''))"
      by (subst collapseSlashes.simps) simp
    then show ?thesis
      by (simp add: lit_slash lit_dslash collapsedRuns_replace)
  next
    case False
    then have "collapseSlashes s = s"
      by (subst collapseSlashes.simps) simp
    with False show ?thesis
      by (simp add: lit_dslash collapsedRuns_id)
  qed
qed

lemma collapsedRuns_keeps_rest:
  "filter (\<lambda>c. c \<noteq> 0x2F) (collapsedRuns s) = filter (\<lambda>c. c \<noteq> 0x2F) s"
  by (induction s rule: collapsedRuns.induct) auto

lemma collapsedRuns_after_slash:
  "\<not> startsWith s (lit ''/'') \<Longrightarrow> collapsedRuns (0x2F # s) = 0x2F # collapsedRuns s"
  by (cases s) (auto simp: lit_slash)

lemma normalizePath_Some:
  "normalizePath (Some s) =
     collapsedRuns (if startsWith (trim s) (lit ''/'') then trim s else lit ''/'' @ trim s)"
proof (cases "s = []")
  case True
  then show ?thesis
    by (simp add: normalizePath_def trim_def lit_slash)
next
  case False
  then show ?thesis
    by (simp add: normalizePath_def Let_def collapseSlashes_runs)
qed

text \<open>
  Claim C3. For an input string without a leading slash, \<open>normalizePath\<close> returns a
  string that starts with exactly one slash (a slash followed by a rest that does not start
  with one); for every input, present or absent, no two neighbouring code units of the result
  are both slashes; and an absent input yields \<open>"/"\<close>. The result is the trimmed input
  itself with its runs of slashes collapsed, behind one prepended slash when the trimmed
  input does not start with one: apart from slashes, the code units of the result are those
  of the trimmed input, in order.
\<close>

theorem normalizePath_single_leading_slash:
  "(\<not> startsWith s (lit ''/'') \<longrightarrow>
      (\<exists>rest. normalizePath (Some s) = lit ''/'' @ rest \<and> \<not> startsWith rest (lit ''/'')))
   \<and> (Suc i < length (normalizePath p) \<longrightarrow>
        \<not> (normalizePath p ! i = 0x2F \<and> normalizePath p ! Suc i = 0x2F))
   \<and> normalizePath None = lit ''/''
   \<and> (\<not> startsWith (trim s) (lit ''/'') \<longrightarrow>
        normalizePath (Some s) = lit ''/'' @ collapsedRuns (trim s))
   \<and> (startsWith (trim s) (lit ''/'') \<longrightarrow> normalizePath (Some s) = collapsedRuns (trim s))
   \<and> filter (\<lambda>c. c \<noteq> 0x2F) (normalizePath (Some s)) = filter (\<lambda>c. c \<noteq> 0x2F) (trim s)"
proof (intro conjI impI)
  obtain t where t: "normalizePath (Some s) = 0x2F # t"
    using normalizePath_head by blast
  have "\<not> includesStr (0x2F # t) [0x2F, 0x2F]"
    using normalizePath_no_double [of "Some s"] by (simp add: t lit_dslash)
  then have "\<not> startsWith t (lit ''/'')"
    by (cases t) (auto simp: lit_slash)
  with t show "\<exists>rest. normalizePath (Some s) = lit ''/'' @ rest \<and> \<not> startsWith rest (lit ''/'')"
    by (simp add: lit_slash)
next
  assume i: "Suc i < length (normalizePath p)"
  have "\<not> includesStr (normalizePath p) [0x2F, 0x2F]"
    using normalizePath_no_double [of p] by (simp add: lit_dslash)
  with i show "\<not> (normalizePath p ! i = 0x2F \<and> normalizePath p ! Suc i = 0x2F)"
    by (auto simp: includes_pair)
next
  show "normalizePath None = lit ''/''"
    by (simp add: normalizePath_def)
next
  assume "\<not> startsWith (trim s) (lit ''/'')"
  then show "normalizePath (Some s) = lit ''/'' @ collapsedRuns (trim s)"
    by (simp add: normalizePath_Some lit_slash collapsedRuns_after_slash [unfolded lit_slash])
next
  assume "startsWith (trim s) (lit ''/'')"
  then show "normalizePath (Some s) = collapsedRuns (trim s)"
    by (simp add: normalizePath_Some)
next
  show "filter (\<lambda>c. c \<noteq> 0x2F) (normalizePath (Some s)) = filter (\<lambda>c. c \<noteq> 0x2F) (trim s)"
    by (simp add: normalizePath_Some collapsedRuns_keeps_rest lit_slash)
qed

text \<open>
  C3 at \<open>"blog//post"\<close>, at \<open>"a//b"\<close> with position \<open>0\<close>, and at
  \<open>" //a///b/ "\<close>.
\<close>

theorem normalizePath_single_leading_slash_witness:
  "\<not> startsWith (lit ''blog//post'') (lit ''/'')
   \<and> (\<exists>rest. normalizePath (Some (lit ''blog//post'')) = lit ''/'' @ rest \<and> \<not> startsWith rest (lit ''/''))
   \<and> Suc 0 < length (normalizePath (Some (lit ''a//b'')))
   \<and> \<not> (normalizePath (Some (lit ''a//b'')) ! 0 = 0x2F \<and> normalizePath (Some (lit ''a//b'')) ! Suc 0 = 0x2F)
   \<and> \<not> startsWith (trim (lit ''blog//post'')) (lit ''/'')
   \<and> normalizePath (Some (lit ''blog//post'')) = lit ''/blog/post''
   \<and> startsWith (trim (lit '' //a///b/ '')) (lit ''/'')
   \<and> normalizePath (Some (lit '' //a///b/ '')) = lit ''/a/b/''"
proof -
  have h1: "\<not> startsWith (lit ''blog//post'') (lit ''/'')" by code_simp
  have h2: "Suc 0 < length (normalizePath (Some (lit ''a//b'')))" by code_simp
  have h3: "\<not> startsWith (trim (lit ''blog//post'')) (lit ''/'')" by code_simp
  have h4: "startsWith (trim (lit '' //a///b/ '')) (lit ''/'')" by code_simp
  have e3: "lit ''/'' @ collapsedRuns (trim (lit ''blog//post'')) = lit ''/blog/post''" by code_simp
  have e4: "collapsedRuns (trim (lit '' //a///b/ '')) = lit ''/a/b/''" by code_simp
  note a = normalizePath_single_leading_slash [of "lit ''blog//post''" 0 "Some (lit ''a//b'')"]
  note b = normalizePath_single_leading_slash [of "lit '' //a///b/ ''" 0 None]
  from a h3 have "normalizePath (Some (lit ''blog//post'')) = lit ''/'' @ collapsedRuns (trim (lit ''blog//post''))"
    by (elim conjE) (rule mp)
  then have r3: "normalizePath (Some (lit ''blog//post'')) = lit ''/blog/post''"
    by (simp only: e3)
  from b h4 have "normalizePath (Some (lit '' //a///b/ '')) = collapsedRuns (trim (lit '' //a///b/ ''))"
    by (elim conjE) (rule mp)
  then have r4: "normalizePath (Some (lit '' //a///b/ '')) = lit ''/a/b/''"
    by (simp only: e4)
  from a h1 h2 have old: "(\<exists>rest. normalizePath (Some (lit ''blog//post'')) = lit ''/'' @ rest \<and> \<not> startsWith rest (lit ''/''))"
    "\<not> (normalizePath (Some (lit ''a//b'')) ! 0 = 0x2F \<and> normalizePath (Some (lit ''a//b'')) ! Suc 0 = 0x2F)"
    by blast+
  from h1 old h2 h3 r3 h4 r4 show ?thesis
    by (intro conjI)
qed

subsection \<open>The metadata constructor\<close>

lemma constructMetadata_fields:
  assumes "urlsResolve P appCfg args0"
  shows "\<exists>m. constructMetadata P env appCfg og args0 = Inr m
     \<and> md_description m =
         truncateDescription (orElse (arg_description (orElse args0 emptyArgs)) (cfg_description appCfg))
           MAX_DESCRIPTION_LENGTH
     \<and> robots_index (md_robots m) =
         (\<not> orElse (arg_noIndex (orElse args0 emptyArgs)) False
          \<and> orElse (optField (cfg_pageDefaults appCfg) robotsIndex) True)
     \<and> robots_follow (md_robots m) =
         (\<not> orElse (arg_noFollow (orElse args0 emptyArgs)) False
          \<and> orElse (optField (cfg_pageDefaults appCfg) robotsFollow) True)
     \<and> md_verification m = (if verification env = [] then None else Some (verification env))"
proof -
  from assms obtain c b where
    c: "newURL P (normalizePath (arg_pathname (orElse args0 emptyArgs)))
          (Some (orElse (optField (cfg_seo appCfg) canonicalBase) (cfg_url appCfg))) = Inr c"
    and b: "newURL P (cfg_url appCfg) None = Inr b"
    unfolding urlsResolve_def
    by (metis sum.collapse(2))
  show ?thesis
    unfolding constructMetadata_def Let_def by (simp add: c b)
qed

lemma constructMetadata_throws:
  "\<not> urlsResolve P appCfg args0 \<Longrightarrow> \<exists>e. constructMetadata P env appCfg og args0 = Inl e"
  unfolding urlsResolve_def constructMetadata_def Let_def
  by (auto split: sum.splits)

lemma length_lit: "length (lit cs) = length cs"
  by (simp add: lit_def)

lemma truncate_long:
  "maxLength < length d \<Longrightarrow> 3 \<le> maxLength \<Longrightarrow>
     truncateDescription d maxLength = take (maxLength - 3) d @ lit ''...''
     \<and> length (truncateDescription d maxLength) = maxLength"
  by (simp add: truncateDescription_def substring0_def length_lit)

text \<open>
  Claim C2. When \<open>constructMetadata\<close> is given (or takes from the configuration) a
  description of more than 160 code units, the description of the returned metadata has
  length at most 160, is the first 157 code units of the input followed by \<open>"..."\<close>, and so
  ends with \<open>"..."\<close>; a description of at most 160 code units is returned unchanged. The call
  returns whenever its two \<open>new URL\<close> calls do.
\<close>

theorem description_truncated:
  assumes "urlsResolve P appCfg args0"
    and "d = orElse (arg_description (orElse args0 emptyArgs)) (cfg_description appCfg)"
  shows "\<exists>m. constructMetadata P env appCfg og args0 = Inr m
     \<and> (160 < length d \<longrightarrow>
          length (md_description m) \<le> 160
          \<and> md_description m = take 157 d @ lit ''...''
          \<and> drop (length (md_description m) - 3) (md_description m) = lit ''...'')
     \<and> (length d \<le> 160 \<longrightarrow> md_description m = d)"
proof -
  from constructMetadata_fields [OF assms(1), of env og] obtain m where
    m: "constructMetadata P env appCfg og args0 = Inr m"
    and dm: "md_description m = truncateDescription d MAX_DESCRIPTION_LENGTH"
    using assms(2) by auto
  have long: "160 < length d \<Longrightarrow> md_description m = take 157 d @ lit ''...'' \<and> length (md_description m) = 160"
    using truncate_long [of 160 d] by (simp add: dm MAX_DESCRIPTION_LENGTH_def length_lit)
  have short: "length d \<le> 160 \<Longrightarrow> md_description m = d"
    by (simp add: dm MAX_DESCRIPTION_LENGTH_def truncateDescription_def)
  have tail: "160 < length d \<Longrightarrow> drop (length (md_description m) - 3) (md_description m) = lit ''...''"
    using long by (simp add: length_lit)
  from m long short tail show ?thesis by auto
qed


lemma verification_cases:
  "verification env =
     (case map_option trim (NEXT_PUBLIC_GOOGLE_VERIFICATION env) of
        Some g \<Rightarrow> if g \<noteq> [] then [(''google'', g)] else []
      | None \<Rightarrow> [])
     @ (case map_option trim (NEXT_PUBLIC_YANDEX_VERIFICATION env) of
        Some y \<Rightarrow> if y \<noteq> [] then [(''yandex'', y)] else []
      | None \<Rightarrow> [])"
  by (cases "NEXT_PUBLIC_GOOGLE_VERIFICATION env"; cases "NEXT_PUBLIC_YANDEX_VERIFICATION env")
     (simp_all add: verification_def Let_def)

text \<open>
  Claim C4. The metadata has a \<open>verification\<close> field if and only if at least one of the two
  environment tokens is set and non-empty after trimming; when it is present, it maps
  \<open>google\<close> exactly when the Google token is such, \<open>yandex\<close> exactly when the Yandex token
  is such, each to its trimmed token, and has no other key.
\<close>

theorem verification_field:
  assumes "urlsResolve P appCfg args0"
  shows "\<exists>m. constructMetadata P env appCfg og args0 = Inr m
     \<and> (md_verification m \<noteq> None \<longleftrightarrow>
          (\<exists>g. NEXT_PUBLIC_GOOGLE_VERIFICATION env = Some g \<and> trim g \<noteq> [])
          \<or> (\<exists>y. NEXT_PUBLIC_YANDEX_VERIFICATION env = Some y \<and> trim y \<noteq> []))
     \<and> (\<forall>v. md_verification m = Some v \<longrightarrow>
          (\<forall>t. map_of v ''google'' = Some t \<longleftrightarrow>
                (\<exists>g. NEXT_PUBLIC_GOOGLE_VERIFICATION env = Some g \<and> trim g \<noteq> [] \<and> t = trim g))
          \<and> (\<forall>t. map_of v ''yandex'' = Some t \<longleftrightarrow>
                (\<exists>y. NEXT_PUBLIC_YANDEX_VERIFICATION env = Some y \<and> trim y \<noteq> [] \<and> t = trim y))
          \<and> fst ` set v \<subseteq> {''google'', ''yandex''})"
proof -
  from constructMetadata_fields [OF assms, of env og] obtain m where
    m: "constructMetadata P env appCfg og args0 = Inr m"
    and vm: "md_verification m = (if verification env = [] then None else Some (verification env))"
    by auto
  have a: "md_verification m \<noteq> None \<longleftrightarrow>
          (\<exists>g. NEXT_PUBLIC_GOOGLE_VERIFICATION env = Some g \<and> trim g \<noteq> [])
          \<or> (\<exists>y. NEXT_PUBLIC_YANDEX_VERIFICATION env = Some y \<and> trim y \<noteq> [])"
    unfolding vm verification_cases
    by (cases "NEXT_PUBLIC_GOOGLE_VERIFICATION env"; cases "NEXT_PUBLIC_YANDEX_VERIFICATION env") auto
  have b: "map_of (verification env) ''google'' = Some t \<longleftrightarrow>
        (\<exists>g. NEXT_PUBLIC_GOOGLE_VERIFICATION env = Some g \<and> trim g \<noteq> [] \<and> t = trim g)" for t
    unfolding verification_cases
    by (cases "NEXT_PUBLIC_GOOGLE_VERIFICATION env"; cases "NEXT_PUBLIC_YANDEX_VERIFICATION env") auto
  have c: "map_of (verification env) ''yandex'' = Some t \<longleftrightarrow>
        (\<exists>y. NEXT_PUBLIC_YANDEX_VERIFICATION env = Some y \<and> trim y \<noteq> [] \<and> t = trim y)" for t
    unfolding verification_cases
    by (cases "NEXT_PUBLIC_GOOGLE_VERIFICATION env"; cases "NEXT_PUBLIC_YANDEX_VERIFICATION env") auto
  have d: "fst ` set (verification env) \<subseteq> {''google'', ''yandex''}"
    unfolding verification_cases
    by (cases "NEXT_PUBLIC_GOOGLE_VERIFICATION env"; cases "NEXT_PUBLIC_YANDEX_VERIFICATION env") auto
  have e: "\<forall>v. md_verification m = Some v \<longrightarrow> v = verification env"
    by (simp add: vm)
  from m a b c d e show ?thesis by blast
qed


text \<open>C2 at a description of 200 code units, and at the short configured one.\<close>

theorem description_truncated_witness:
  "urlsResolve samplePlatform sampleConfig (Some (emptyArgs\<lparr>arg_description := Some (replicate 200 0x61)\<rparr>))
   \<and> 160 < length (replicate 200 (0x61 :: 16 word))
   \<and> (\<exists>m. constructMetadata samplePlatform sampleEnv sampleConfig (lit ''/og.png'')
              (Some (emptyArgs\<lparr>arg_description := Some (replicate 200 0x61)\<rparr>)) = Inr m
          \<and> length (md_description m) \<le> 160
          \<and> md_description m = take 157 (replicate 200 0x61) @ lit ''...'')
   \<and> urlsResolve samplePlatform sampleConfig None
   \<and> length (cfg_description sampleConfig) \<le> 160
   \<and> (\<exists>m. constructMetadata samplePlatform sampleEnv sampleConfig (lit ''/og.png'') None = Inr m
          \<and> md_description m = cfg_description sampleConfig)"
proof -
  let ?args = "Some (emptyArgs\<lparr>arg_description := Some (replicate 200 0x61)\<rparr>)"
  have h1: "urlsResolve samplePlatform sampleConfig ?args"
    by (simp add: urlsResolve_def samplePlatform_def)
  have d1: "replicate 200 0x61 =
      orElse (arg_description (orElse ?args emptyArgs)) (cfg_description sampleConfig)"
    by (simp add: orElse_def)
  have l1: "160 < length (replicate 200 (0x61 :: 16 word))"
    by simp
  have h2: "urlsResolve samplePlatform sampleConfig None"
    by (simp add: urlsResolve_def samplePlatform_def)
  have d2: "cfg_description sampleConfig =
      orElse (arg_description (orElse None emptyArgs)) (cfg_description sampleConfig)"
    by (simp add: orElse_def emptyArgs_def)
  have l2: "length (cfg_description sampleConfig) \<le> 160"
    by (simp add: sampleConfig_def length_lit)
  from description_truncated [OF h1 d1, of sampleEnv "lit ''/og.png''"] l1
       description_truncated [OF h2 d2, of sampleEnv "lit ''/og.png''"] l2 h1 h2
  show ?thesis by blast
qed


text \<open>C4 with the Google token \<open>" abc "\<close> and a Yandex token of blanks only.\<close>

theorem verification_field_witness:
  "urlsResolve samplePlatform sampleConfig None
   \<and> (\<exists>m v. constructMetadata samplePlatform sampleEnv sampleConfig (lit ''/og.png'') None = Inr m
          \<and> md_verification m = Some v
          \<and> map_of v ''google'' = Some (lit ''abc'')
          \<and> map_of v ''yandex'' = None)"
proof -
  have h: "urlsResolve samplePlatform sampleConfig None"
    by (simp add: urlsResolve_def samplePlatform_def)
  have g: "NEXT_PUBLIC_GOOGLE_VERIFICATION sampleEnv = Some (lit '' abc '')"
    and y: "NEXT_PUBLIC_YANDEX_VERIFICATION sampleEnv = Some (lit ''  '')"
    by (simp_all add: sampleEnv_def)
  have tg: "trim (lit '' abc '') = lit ''abc''" and ty: "trim (lit ''  '') = []"
    by code_simp+
  have ne: "lit ''abc'' \<noteq> []"
    by (simp add: lit_def)
  from verification_field [OF h, of sampleEnv "lit ''/og.png''"] obtain m where
    m: "constructMetadata samplePlatform sampleEnv sampleConfig (lit ''/og.png'') None = Inr m"
    and some: "md_verification m \<noteq> None"
    and keys: "\<forall>v. md_verification m = Some v \<longrightarrow>
          (\<forall>t. map_of v ''google'' = Some t \<longleftrightarrow>
                (\<exists>g. NEXT_PUBLIC_GOOGLE_VERIFICATION sampleEnv = Some g \<and> trim g \<noteq> [] \<and> t = trim g))
          \<and> (\<forall>t. map_of v ''yandex'' = Some t \<longleftrightarrow>
                (\<exists>y. NEXT_PUBLIC_YANDEX_VERIFICATION sampleEnv = Some y \<and> trim y \<noteq> [] \<and> t = trim y))
          \<and> fst ` set v \<subseteq> {''google'', ''yandex''}"
    using g tg ne by auto
  from some obtain v where v: "md_verification m = Some v" by auto
  from keys v have "map_of v ''google'' = Some (lit ''abc'')"
    using g tg ne by simp
  moreover from keys v have "map_of v ''yandex'' = None"
    using y ty by (cases "map_of v ''yandex''") auto
  ultimately show ?thesis using h m v by blast
qed


subsection \<open>Articles\<close>

text \<open>
  Claim C9. Whenever \<open>buildArticleSchema\<close> returns (its one \<open>new URL\<close> call, for the
  publisher logo, does), \<open>dateModified\<close> of the result is the \<open>datePublished\<close> argument when
  the \<open>dateModified\<close> argument is absent and also when it is the empty string; it is the
  given \<open>dateModified\<close> when that is a non-empty string, and it differs from \<open>datePublished\<close>
  only then.
\<close>

theorem dateModified_falls_back:
  assumes "newURL P (cfg_logo appCfg) (Some (cfg_url appCfg)) = Inr logoUrl"
  shows "\<exists>a. buildArticleSchema P appCfg args = Inr a
     \<and> (art_dateModified args = None \<longrightarrow> dateModified a = art_datePublished args)
     \<and> (art_dateModified args = Some [] \<longrightarrow> dateModified a = art_datePublished args)
     \<and> (\<forall>d. art_dateModified args = Some d \<and> d \<noteq> [] \<longrightarrow> dateModified a = d)
     \<and> (dateModified a \<noteq> art_datePublished args \<longrightarrow>
          (\<exists>d. art_dateModified args = Some d \<and> d \<noteq> [] \<and> dateModified a = d))"
  using assms
  by (cases "art_dateModified args") (auto simp: buildArticleSchema_def Let_def orStr_def)

text \<open>C9 on an article without, with an empty and with a non-empty \<open>dateModified\<close>.\<close>

theorem dateModified_falls_back_witness:
  "newURL samplePlatform (cfg_logo sampleConfig) (Some (cfg_url sampleConfig))
     = Inr (lit ''https://example.com/logo.png'')
   \<and> (\<exists>a. buildArticleSchema samplePlatform sampleConfig (sampleArticle None) = Inr a
          \<and> dateModified a = lit ''2024-01-01'')
   \<and> (\<exists>a. buildArticleSchema samplePlatform sampleConfig (sampleArticle (Some [])) = Inr a
          \<and> dateModified a = lit ''2024-01-01'')
   \<and> (\<exists>a. buildArticleSchema samplePlatform sampleConfig (sampleArticle (Some (lit ''2024-02-02''))) = Inr a
          \<and> dateModified a = lit ''2024-02-02'')"
proof -
  have h: "newURL samplePlatform (cfg_logo sampleConfig) (Some (cfg_url sampleConfig))
     = Inr (lit ''https://example.com/logo.png'')"
    by (simp add: samplePlatform_def sampleConfig_def lit_def)
  have ne: "lit ''2024-02-02'' \<noteq> []"
    by (simp add: lit_def)
  from dateModified_falls_back [OF h, of "sampleArticle None"]
       dateModified_falls_back [OF h, of "sampleArticle (Some [])"]
       dateModified_falls_back [OF h, of "sampleArticle (Some (lit ''2024-02-02''))"] h ne
  show ?thesis
    by (auto simp: sampleArticle_def)
qed

subsection \<open>Persons\<close>

lemma sameAsUrls_eq:
  "sameAsUrls author = orElse (author_sameAs author) [] @ handleUrl author"
  by (cases "author_sameAs author"; cases "author_twitter author")
     (simp_all add: sameAsUrls_def handleUrl_def orElse_def Let_def)

text \<open>
  Claim C10. The Person object has a \<open>sameAs\<close> field if and only if the record's profile
  URLs followed by the handle-derived URL (if any) form a non-empty list, and the field is
  then that list; an author with no \<open>sameAs\<close> list and no usable handle yields a Person
  without the field.
\<close>

theorem sameAs_only_when_nonempty:
  "(person_sameAs (buildPersonSchema author) \<noteq> None \<longleftrightarrow>
      orElse (author_sameAs author) [] @ handleUrl author \<noteq> [])
   \<and> (\<forall>urls. person_sameAs (buildPersonSchema author) = Some urls \<longrightarrow>
         urls = orElse (author_sameAs author) [] @ handleUrl author)
   \<and> (author_sameAs author = None \<and> handleUrl author = [] \<longrightarrow>
         person_sameAs (buildPersonSchema author) = None)"
  by (auto simp: buildPersonSchema_def sameAsUrls_eq orElse_def)

lemma default_author_fields:
  "author_url DEFAULT_AUTHOR = Some (lit ''https://github.com/aifa-agi'')"
  "author_twitter DEFAULT_AUTHOR = Some (lit ''@aifa_agi'')"
  "author_sameAs DEFAULT_AUTHOR
     = Some [lit ''https://github.com/aifa-agi'', lit ''https://twitter.com/aifa_agi'']"
  by (simp_all add: DEFAULT_AUTHOR_def)

text \<open>C10 on the default author and on an author with a name only.\<close>

theorem sameAs_only_when_nonempty_witness:
  "person_sameAs (buildPersonSchema DEFAULT_AUTHOR)
     = Some [lit ''https://github.com/aifa-agi'', lit ''https://twitter.com/aifa_agi'',
             lit ''https://twitter.com/aifa_agi'']
   \<and> author_sameAs (bareAuthor (lit ''Ann'')) = None
   \<and> handleUrl (bareAuthor (lit ''Ann'')) = []
   \<and> person_sameAs (buildPersonSchema (bareAuthor (lit ''Ann''))) = None"
proof -
  have h: "handleUrl DEFAULT_AUTHOR = [lit ''https://twitter.com/aifa_agi'']"
    by (simp add: handleUrl_def default_author_fields lit_Nil lit_Cons of_char_word_eq)
  have b: "author_sameAs (bareAuthor (lit ''Ann'')) = None" "handleUrl (bareAuthor (lit ''Ann'')) = []"
    by (simp_all add: bareAuthor_def handleUrl_def)
  have ne: "person_sameAs (buildPersonSchema DEFAULT_AUTHOR) \<noteq> None"
    using sameAs_only_when_nonempty [of DEFAULT_AUTHOR] h by simp
  then obtain urls where urls: "person_sameAs (buildPersonSchema DEFAULT_AUTHOR) = Some urls"
    by auto
  with sameAs_only_when_nonempty [of DEFAULT_AUTHOR]
  have "urls = orElse (author_sameAs DEFAULT_AUTHOR) [] @ handleUrl DEFAULT_AUTHOR"
    by blast
  then have "urls = [lit ''https://github.com/aifa-agi'', lit ''https://twitter.com/aifa_agi'',
             lit ''https://twitter.com/aifa_agi'']"
    by (simp add: h default_author_fields orElse_def)
  moreover from sameAs_only_when_nonempty [of "bareAuthor (lit ''Ann'')"] b
  have "person_sameAs (buildPersonSchema (bareAuthor (lit ''Ann''))) = None"
    by blast
  ultimately show ?thesis using urls b by simp
qed

text \<open>
  Claim C6, as the code has it. Each of \<open>url\<close>, \<open>email\<close>, \<open>image\<close>, \<open>bio\<close> (as
  \<open>description\<close>) and \<open>jobTitle\<close> is in the Person object exactly when it is present and
  not the empty string. When the Twitter handle is present, not empty and does not start with
  \<open>http\<close>, \<open>sameAs\<close> is the record's other profile URLs followed by
  \<open>https://twitter.com/\<close> and the handle with its first \<open>@\<close> removed (for a handle
  \<open>@h\<close> that is \<open>https://twitter.com/h\<close>); when the handle is absent, empty or starts
  with \<open>http\<close>, no URL is derived from it.
\<close>

theorem person_fields_when_truthy:
  "(\<forall>v. person_url (buildPersonSchema author) = Some v \<longleftrightarrow> author_url author = Some v \<and> v \<noteq> [])
   \<and> (\<forall>v. person_email (buildPersonSchema author) = Some v \<longleftrightarrow> author_email author = Some v \<and> v \<noteq> [])
   \<and> (\<forall>v. person_image (buildPersonSchema author) = Some v \<longleftrightarrow> author_image author = Some v \<and> v \<noteq> [])
   \<and> (\<forall>v. person_description (buildPersonSchema author) = Some v \<longleftrightarrow> author_bio author = Some v \<and> v \<noteq> [])
   \<and> (\<forall>v. person_jobTitle (buildPersonSchema author) = Some v \<longleftrightarrow> author_jobTitle author = Some v \<and> v \<noteq> [])
   \<and> (\<forall>t. author_twitter author = Some t \<and> t \<noteq> [] \<and> \<not> startsWith t (lit ''http'') \<longrightarrow>
         person_sameAs (buildPersonSchema author)
           = Some (orElse (author_sameAs author) [] @ [lit ''https://twitter.com/'' @ replace t (lit ''@'') []]))
   \<and> (\<forall>h. author_twitter author = Some (lit ''@'' @ h) \<longrightarrow>
         person_sameAs (buildPersonSchema author)
           = Some (orElse (author_sameAs author) [] @ [lit ''https://twitter.com/'' @ h]))
   \<and> (author_twitter author = None \<or> author_twitter author = Some []
        \<or> (\<exists>t. author_twitter author = Some t \<and> startsWith t (lit ''http'')) \<longrightarrow>
         sameAsUrls author = orElse (author_sameAs author) [])"
proof -
  have field: "(setIfTruthy x = Some v) \<longleftrightarrow> (x = Some v \<and> v \<noteq> [])" for x v
    by (cases x) (auto simp: setIfTruthy_def)
  have at: "replace (lit ''@'' @ h) (lit ''@'') [] = h" "lit ''@'' @ h \<noteq> []"
    "\<not> startsWith (lit ''@'' @ h) (lit ''http'')" for h
    by (simp_all add: lit_def)
  have handle: "person_sameAs (buildPersonSchema author)
           = Some (orElse (author_sameAs author) [] @ [lit ''https://twitter.com/'' @ replace t (lit ''@'') []])"
    if "author_twitter author = Some t \<and> t \<noteq> [] \<and> \<not> startsWith t (lit ''http'')" for t
    using that by (simp add: buildPersonSchema_def sameAsUrls_eq handleUrl_def)
  have handle_at: "person_sameAs (buildPersonSchema author)
           = Some (orElse (author_sameAs author) [] @ [lit ''https://twitter.com/'' @ h])"
    if "author_twitter author = Some (lit ''@'' @ h)" for h
    using handle [of "lit ''@'' @ h"] that at [of h] by simp
  have none: "sameAsUrls author = orElse (author_sameAs author) []"
    if "author_twitter author = None \<or> author_twitter author = Some []
        \<or> (\<exists>t. author_twitter author = Some t \<and> startsWith t (lit ''http''))"
    using that by (auto simp: sameAsUrls_eq handleUrl_def)
  have fields:
    "\<forall>v. person_url (buildPersonSchema author) = Some v \<longleftrightarrow> author_url author = Some v \<and> v \<noteq> []"
    "\<forall>v. person_email (buildPersonSchema author) = Some v \<longleftrightarrow> author_email author = Some v \<and> v \<noteq> []"
    "\<forall>v. person_image (buildPersonSchema author) = Some v \<longleftrightarrow> author_image author = Some v \<and> v \<noteq> []"
    "\<forall>v. person_description (buildPersonSchema author) = Some v \<longleftrightarrow> author_bio author = Some v \<and> v \<noteq> []"
    "\<forall>v. person_jobTitle (buildPersonSchema author) = Some v \<longleftrightarrow> author_jobTitle author = Some v \<and> v \<noteq> []"
    by (simp_all add: buildPersonSchema_def field)
  from fields handle handle_at none show ?thesis
    by blast
qed

text \<open>
  C6 as stated fails: an author whose \<open>email\<close> is present as \<open>""\<close> gets no \<open>email\<close>
  field, and the handle \<open>httpfan\<close>, which is no absolute URL, gets no profile URL.
\<close>

theorem person_fields_counterexample:
  "author_email ((bareAuthor (lit ''Ann''))\<lparr>author_email := Some []\<rparr>) = Some []
   \<and> person_email (buildPersonSchema ((bareAuthor (lit ''Ann''))\<lparr>author_email := Some []\<rparr>)) = None
   \<and> author_twitter ((bareAuthor (lit ''Ann''))\<lparr>author_twitter := Some (lit ''httpfan'')\<rparr>)
       = Some (lit ''httpfan'')
   \<and> person_sameAs (buildPersonSchema ((bareAuthor (lit ''Ann''))\<lparr>author_twitter := Some (lit ''httpfan'')\<rparr>))
       = None"
  by (simp add: bareAuthor_def buildPersonSchema_def setIfTruthy_def sameAsUrls_def
      lit_Nil lit_Cons of_char_word_eq)

text \<open>C6 on the default author (URL and handle present) and on an author with a name only.\<close>

theorem person_fields_when_truthy_witness:
  "author_url DEFAULT_AUTHOR = Some (lit ''https://github.com/aifa-agi'')
   \<and> lit ''https://github.com/aifa-agi'' \<noteq> []
   \<and> person_url (buildPersonSchema DEFAULT_AUTHOR) = Some (lit ''https://github.com/aifa-agi'')
   \<and> author_twitter DEFAULT_AUTHOR = Some (lit ''@'' @ lit ''aifa_agi'')
   \<and> person_sameAs (buildPersonSchema DEFAULT_AUTHOR)
       = Some (orElse (author_sameAs DEFAULT_AUTHOR) [] @ [lit ''https://twitter.com/'' @ lit ''aifa_agi''])
   \<and> author_twitter (bareAuthor (lit ''Ann'')) = None
   \<and> sameAsUrls (bareAuthor (lit ''Ann'')) = orElse (author_sameAs (bareAuthor (lit ''Ann''))) []"
proof -
  have u: "author_url DEFAULT_AUTHOR = Some (lit ''https://github.com/aifa-agi'')"
    by (rule default_author_fields(1))
  have une: "lit ''https://github.com/aifa-agi'' \<noteq> []"
    by (simp add: lit_Cons)
  have t: "author_twitter DEFAULT_AUTHOR = Some (lit ''@'' @ lit ''aifa_agi'')"
    unfolding default_author_fields(2) by (simp add: lit_Nil lit_Cons)
  have b: "author_twitter (bareAuthor (lit ''Ann'')) = None"
    by (simp add: bareAuthor_def)
  note default = person_fields_when_truthy [of DEFAULT_AUTHOR]
  note bare = person_fields_when_truthy [of "bareAuthor (lit ''Ann'')"]
  from default have "\<forall>v. person_url (buildPersonSchema DEFAULT_AUTHOR) = Some v
      \<longleftrightarrow> author_url DEFAULT_AUTHOR = Some v \<and> v \<noteq> []"
    by (rule conjunct1)
  then have "person_url (buildPersonSchema DEFAULT_AUTHOR) = Some (lit ''https://github.com/aifa-agi'')
      \<longleftrightarrow> author_url DEFAULT_AUTHOR = Some (lit ''https://github.com/aifa-agi'')
          \<and> lit ''https://github.com/aifa-agi'' \<noteq> []"
    by (rule spec)
  with u une have c1: "person_url (buildPersonSchema DEFAULT_AUTHOR) = Some (lit ''https://github.com/aifa-agi'')"
    by (simp only: simp_thms)
  from default have "\<forall>h. author_twitter DEFAULT_AUTHOR = Some (lit ''@'' @ h) \<longrightarrow>
         person_sameAs (buildPersonSchema DEFAULT_AUTHOR)
           = Some (orElse (author_sameAs DEFAULT_AUTHOR) [] @ [lit ''https://twitter.com/'' @ h])"
    by (elim conjE)
  from this [rule_format, OF t]
  have c2: "person_sameAs (buildPersonSchema DEFAULT_AUTHOR)
       = Some (orElse (author_sameAs DEFAULT_AUTHOR) [] @ [lit ''https://twitter.com/'' @ lit ''aifa_agi''])" .
  from bare have "author_twitter (bareAuthor (lit ''Ann'')) = None
        \<or> author_twitter (bareAuthor (lit ''Ann'')) = Some []
        \<or> (\<exists>t. author_twitter (bareAuthor (lit ''Ann'')) = Some t \<and> startsWith t (lit ''http'')) \<longrightarrow>
         sameAsUrls (bareAuthor (lit ''Ann'')) = orElse (author_sameAs (bareAuthor (lit ''Ann''))) []"
    by (elim conjE)
  from this [rule_format, OF disjI1, OF b]
  have c3: "sameAsUrls (bareAuthor (lit ''Ann'')) = orElse (author_sameAs (bareAuthor (lit ''Ann''))) []" .
  from u une c1 t c2 b c3 show ?thesis
    by (intro conjI)
qed

subsection \<open>Breadcrumbs\<close>

lemma mapBreadcrumbs_items:
  assumes "\<forall>b \<in> set bs. \<not> isl (newURL P (crumb_url b) (Some (cfg_url appCfg)))"
  shows "\<exists>items. mapBreadcrumbs P appCfg index bs = Inr items
     \<and> length items = length bs
     \<and> (\<forall>i < length bs.
           item_type (items ! i) = lit ''ListItem''
           \<and> position (items ! i) = index + i + 1
           \<and> item_name (items ! i) = crumb_name (bs ! i)
           \<and> newURL P (crumb_url (bs ! i)) (Some (cfg_url appCfg)) = Inr (item (items ! i)))"
  using assms
proof (induction bs arbitrary: index)
  case Nil
  then show ?case by simp
next
  case (Cons b rest)
  from Cons.prems obtain href where
    href: "newURL P (crumb_url b) (Some (cfg_url appCfg)) = Inr href"
    by (cases "newURL P (crumb_url b) (Some (cfg_url appCfg))") auto
  from Cons.prems have "\<forall>b \<in> set rest. \<not> isl (newURL P (crumb_url b) (Some (cfg_url appCfg)))"
    by simp
  from Cons.IH [OF this, of "index + 1"] obtain items where
    items: "mapBreadcrumbs P appCfg (index + 1) rest = Inr items"
    and len: "length items = length rest"
    and each: "\<forall>i < length rest.
           item_type (items ! i) = lit ''ListItem''
           \<and> position (items ! i) = index + 1 + i + 1
           \<and> item_name (items ! i) = crumb_name (rest ! i)
           \<and> newURL P (crumb_url (rest ! i)) (Some (cfg_url appCfg)) = Inr (item (items ! i))"
    by blast
  let ?first = "\<lparr>item_type = lit ''ListItem'', position = index + 1,
                  item_name = crumb_name b, item = href\<rparr>"
  have res: "mapBreadcrumbs P appCfg index (b # rest) = Inr (?first # items)"
    using href items by simp
  have "\<forall>i < length (b # rest).
           item_type ((?first # items) ! i) = lit ''ListItem''
           \<and> position ((?first # items) ! i) = index + i + 1
           \<and> item_name ((?first # items) ! i) = crumb_name ((b # rest) ! i)
           \<and> newURL P (crumb_url ((b # rest) ! i)) (Some (cfg_url appCfg)) = Inr (item ((?first # items) ! i))"
  proof (intro allI impI)
    fix i assume "i < length (b # rest)"
    then show "item_type ((?first # items) ! i) = lit ''ListItem''
           \<and> position ((?first # items) ! i) = index + i + 1
           \<and> item_name ((?first # items) ! i) = crumb_name ((b # rest) ! i)
           \<and> newURL P (crumb_url ((b # rest) ! i)) (Some (cfg_url appCfg)) = Inr (item ((?first # items) ! i))"
      using each href by (cases i) auto
  qed
  with res len show ?case by simp
qed

text \<open>
  Claim C5. When every URL of the trail resolves against the site base URL,
  \<open>buildBreadcrumbSchema\<close> returns an \<open>itemListElement\<close> of the same length, whose
  \<open>i\<close>-th element has position \<open>i + 1\<close>, the \<open>i\<close>-th name and, as \<open>item\<close>, what
  \<open>new URL\<close> gives for the \<open>i\<close>-th url and the base; on Home \<open>/\<close>, Blog \<open>/blog\<close> it
  yields exactly two items, with positions 1 and 2.
\<close>

theorem breadcrumbs_positioned:
  "((\<forall>b \<in> set bs. \<not> isl (newURL P (crumb_url b) (Some (cfg_url appCfg)))) \<longrightarrow>
      (\<exists>s. buildBreadcrumbSchema P appCfg bs = Inr s
         \<and> length (itemListElement s) = length bs
         \<and> (\<forall>i < length bs.
               position (itemListElement s ! i) = i + 1
               \<and> item_name (itemListElement s ! i) = crumb_name (bs ! i)
               \<and> newURL P (crumb_url (bs ! i)) (Some (cfg_url appCfg))
                   = Inr (item (itemListElement s ! i)))))
   \<and> (newURL P (lit ''/'') (Some (cfg_url appCfg)) = Inr home
        \<and> newURL P (lit ''/blog'') (Some (cfg_url appCfg)) = Inr blog \<longrightarrow>
        (\<exists>s. buildBreadcrumbSchema P appCfg
                [\<lparr>crumb_name = lit ''Home'', crumb_url = lit ''/''\<rparr>,
                 \<lparr>crumb_name = lit ''Blog'', crumb_url = lit ''/blog''\<rparr>] = Inr s
           \<and> itemListElement s =
                [\<lparr>item_type = lit ''ListItem'', position = 1, item_name = lit ''Home'', item = home\<rparr>,
                 \<lparr>item_type = lit ''ListItem'', position = 2, item_name = lit ''Blog'', item = blog\<rparr>]))"
proof (intro conjI impI)
  assume "\<forall>b \<in> set bs. \<not> isl (newURL P (crumb_url b) (Some (cfg_url appCfg)))"
  from mapBreadcrumbs_items [OF this, of 0] obtain items where
    "mapBreadcrumbs P appCfg 0 bs = Inr items" "length items = length bs"
    "\<forall>i < length bs.
           item_type (items ! i) = lit ''ListItem''
           \<and> position (items ! i) = 0 + i + 1
           \<and> item_name (items ! i) = crumb_name (bs ! i)
           \<and> newURL P (crumb_url (bs ! i)) (Some (cfg_url appCfg)) = Inr (item (items ! i))"
    by blast
  then show "\<exists>s. buildBreadcrumbSchema P appCfg bs = Inr s
         \<and> length (itemListElement s) = length bs
         \<and> (\<forall>i < length bs.
               position (itemListElement s ! i) = i + 1
               \<and> item_name (itemListElement s ! i) = crumb_name (bs ! i)
               \<and> newURL P (crumb_url (bs ! i)) (Some (cfg_url appCfg))
                   = Inr (item (itemListElement s ! i)))"
    by (simp add: buildBreadcrumbSchema_def)
next
  assume "newURL P (lit ''/'') (Some (cfg_url appCfg)) = Inr home
        \<and> newURL P (lit ''/blog'') (Some (cfg_url appCfg)) = Inr blog"
  then show "\<exists>s. buildBreadcrumbSchema P appCfg
                [\<lparr>crumb_name = lit ''Home'', crumb_url = lit ''/''\<rparr>,
                 \<lparr>crumb_name = lit ''Blog'', crumb_url = lit ''/blog''\<rparr>] = Inr s
           \<and> itemListElement s =
                [\<lparr>item_type = lit ''ListItem'', position = 1, item_name = lit ''Home'', item = home\<rparr>,
                 \<lparr>item_type = lit ''ListItem'', position = 2, item_name = lit ''Blog'', item = blog\<rparr>]"
    by (simp add: buildBreadcrumbSchema_def)
qed

text \<open>C5 on the trail Home, Blog over the sample platform.\<close>

theorem breadcrumbs_positioned_witness:
  "\<not> isl (newURL samplePlatform (lit ''/'') (Some (cfg_url sampleConfig)))
   \<and> \<not> isl (newURL samplePlatform (lit ''/blog'') (Some (cfg_url sampleConfig)))
   \<and> newURL samplePlatform (lit ''/'') (Some (cfg_url sampleConfig)) = Inr (lit ''https://example.com/'')
   \<and> newURL samplePlatform (lit ''/blog'') (Some (cfg_url sampleConfig)) = Inr (lit ''https://example.com/blog'')
   \<and> (\<exists>s. buildBreadcrumbSchema samplePlatform sampleConfig sampleCrumbs = Inr s
          \<and> length (itemListElement s) = 2
          \<and> position (itemListElement s ! 0) = 1
          \<and> position (itemListElement s ! 1) = 2
          \<and> item (itemListElement s ! 0) = lit ''https://example.com/''
          \<and> item (itemListElement s ! 1) = lit ''https://example.com/blog'')"
proof -
  have h1: "newURL samplePlatform (lit ''/'') (Some (cfg_url sampleConfig)) = Inr (lit ''https://example.com/'')"
    and h2: "newURL samplePlatform (lit ''/blog'') (Some (cfg_url sampleConfig)) = Inr (lit ''https://example.com/blog'')"
    by (simp_all add: samplePlatform_def sampleConfig_def lit_Nil lit_Cons)
  have all: "\<forall>b \<in> set sampleCrumbs. \<not> isl (newURL samplePlatform (crumb_url b) (Some (cfg_url sampleConfig)))"
    by (simp add: sampleCrumbs_def h1 h2)
  have len: "length sampleCrumbs = 2"
    by (simp add: sampleCrumbs_def)
  from breadcrumbs_positioned [of sampleCrumbs samplePlatform sampleConfig
         "lit ''https://example.com/''" "lit ''https://example.com/blog''"] all h1 h2
  obtain s where s: "buildBreadcrumbSchema samplePlatform sampleConfig sampleCrumbs = Inr s"
    and its: "itemListElement s =
                [\<lparr>item_type = lit ''ListItem'', position = 1, item_name = lit ''Home'',
                  item = lit ''https://example.com/''\<rparr>,
                 \<lparr>item_type = lit ''ListItem'', position = 2, item_name = lit ''Blog'',
                  item = lit ''https://example.com/blog''\<rparr>]"
    unfolding sampleCrumbs_def by auto
  from s its h1 h2 show ?thesis by simp
qed

subsection \<open>Products\<close>

lemma isDigit_digitChar: "d < 10 \<Longrightarrow> isDigit (digitChar d)"
proof -
  assume d: "d < 10"
  have u: "unat (digitChar d) = 48 + d"
    using d by (simp add: digitChar_def unat_word_ariths unat_of_nat)
  show ?thesis
    unfolding isDigit_def word_le_nat_alt u using d by simp
qed

lemma digitChar_0: "digitChar 0 = 0x30"
  by (simp add: digitChar_def)

lemma digitsOf_digits: "list_all isDigit (digitsOf n)"
proof (induction n rule: digitsOf.induct)
  case (1 n)
  show ?case
  proof (cases "n < 10")
    case True
    then show ?thesis by (subst digitsOf.simps) (simp add: isDigit_digitChar)
  next
    case False
    with 1 show ?thesis by (subst digitsOf.simps) (simp add: isDigit_digitChar)
  qed
qed

lemma digitsOf_nonempty: "digitsOf n \<noteq> []"
  by (subst digitsOf.simps) simp

lemma digitsOf_small: "n < 10 \<Longrightarrow> digitsOf n = [digitChar n]"
  by (subst digitsOf.simps) simp

lemma digitsOf_step: "10 \<le> n \<Longrightarrow> digitsOf n = digitsOf (n div 10) @ [digitChar (n mod 10)]"
  by (subst digitsOf.simps) simp

text \<open>The padded and split digit string of \<open>toFixed(2)\<close>.\<close>

lemma split_two:
  "insertPoint (digitsOf n) 2
   = digitsOf (n div 100) @ [0x2E, digitChar (n div 10 mod 10), digitChar (n mod 10)]"
proof -
  consider "n < 10" | "10 \<le> n" "n < 100" | "100 \<le> n" by linarith
  then show ?thesis
  proof cases
    case 1
    then have "n div 100 = 0" "n div 10 = 0" "n mod 10 = n" by simp_all
    with 1 show ?thesis
      by (simp add: insertPoint_def digitsOf_small digitChar_0 lit_def)
  next
    case 2
    then have d: "n div 100 = 0" "n div 10 < 10" "n div 10 mod 10 = n div 10" by simp_all
    from 2 have "digitsOf n = [digitChar (n div 10), digitChar (n mod 10)]"
      using d by (simp add: digitsOf_step digitsOf_small)
    then show ?thesis
      using d by (simp add: insertPoint_def digitsOf_small digitChar_0 lit_def)
  next
    case 3
    then have "10 \<le> n" "10 \<le> n div 10" by simp_all
    moreover have "n div 10 div 10 = n div 100"
      using div_mult2_eq [of n 10 10] by simp
    ultimately have m: "digitsOf n = digitsOf (n div 100) @ [digitChar (n div 10 mod 10), digitChar (n mod 10)]"
      by (simp add: digitsOf_step)
    have "0 < length (digitsOf (n div 100))"
      using digitsOf_nonempty by simp
    then show ?thesis
      unfolding insertPoint_def m by (simp add: lit_def Let_def)
  qed
qed

lemma toFixed2_finite:
  assumes "\<bar>r\<bar> < 10 ^ 21"
  shows "toFixed N (Fin r) 2 =
      (if r < 0 then lit ''-'' else [])
      @ digitsOf (nat \<lfloor>\<bar>r\<bar> * 100 + 1 / 2\<rfloor> div 100)
      @ [0x2E, digitChar (nat \<lfloor>\<bar>r\<bar> * 100 + 1 / 2\<rfloor> div 10 mod 10),
               digitChar (nat \<lfloor>\<bar>r\<bar> * 100 + 1 / 2\<rfloor> mod 10)]"
proof -
  have x: "(if r < 0 then - r else r) = \<bar>r\<bar>" by simp
  have small: "\<not> 10 ^ 21 \<le> \<bar>r\<bar>" using assms by simp
  show ?thesis
    unfolding toFixed_def jsnum.case Let_def x
    using small by (simp add: split_two)
qed

lemma twoDecimalDigits_shape:
  assumes "list_all isDigit a" "a \<noteq> []" "isDigit d1" "isDigit d2"
  shows "twoDecimalDigits (a @ [0x2E, d1, d2])" "twoDecimalDigits (lit ''-'' @ a @ [0x2E, d1, d2])"
proof -
  have nd: "\<not> isDigit 0x2D" by (simp add: isDigit_def)
  from assms(1,2) have hd: "hd (a @ [0x2E, d1, d2]) \<noteq> 0x2D"
    using nd by (cases a) auto
  have len: "4 \<le> length (a @ [0x2E, d1, d2])" using assms(2) by (cases a) auto
  have shape: "list_all isDigit (take (length (a @ [0x2E, d1, d2]) - 3) (a @ [0x2E, d1, d2]))
       \<and> (a @ [0x2E, d1, d2]) ! (length (a @ [0x2E, d1, d2]) - 3) = 0x2E
       \<and> isDigit ((a @ [0x2E, d1, d2]) ! (length (a @ [0x2E, d1, d2]) - 2))
       \<and> isDigit ((a @ [0x2E, d1, d2]) ! (length (a @ [0x2E, d1, d2]) - 1))"
    using assms by (simp add: nth_append)
  show "twoDecimalDigits (a @ [0x2E, d1, d2])"
    unfolding twoDecimalDigits_def Let_def using hd len shape by simp
  show "twoDecimalDigits (lit ''-'' @ a @ [0x2E, d1, d2])"
    unfolding twoDecimalDigits_def Let_def using len shape by (simp add: lit_def)
qed

lemma floor_rat_numeral: "\<lfloor>(numeral a :: rat) / numeral b\<rfloor> = numeral a div numeral b"
  by (metis floor_divide_of_int_eq of_int_numeral)

lemma truthyNum_Some: "truthyNum (Some x) \<longleftrightarrow> x \<noteq> NaN \<and> x \<noteq> Fin 0"
  by (cases x) auto

text \<open>
  Claim C1, as the code has it. The product has an \<open>aggregateRating\<close> field if and only if
  \<open>rating\<close> and \<open>reviewCount\<close> are both provided and both truthy (neither \<open>0\<close> nor
  \<open>NaN\<close>); when present, it carries the given rating as \<open>ratingValue\<close> and the given
  \<open>reviewCount\<close>.
\<close>

theorem aggregateRating_when_truthy:
  "(aggregateRating (buildProductSchema P args) \<noteq> None \<longleftrightarrow>
      (\<exists>r c. prod_rating args = Some r \<and> prod_reviewCount args = Some c
         \<and> r \<noteq> NaN \<and> r \<noteq> Fin 0 \<and> c \<noteq> NaN \<and> c \<noteq> Fin 0))
   \<and> (\<forall>ag. aggregateRating (buildProductSchema P args) = Some ag \<longrightarrow>
         prod_rating args = Some (ratingValue ag) \<and> prod_reviewCount args = Some (reviewCount ag))"
  by (cases "prod_rating args"; cases "prod_reviewCount args")
     (auto simp: buildProductSchema_def truthyNum_Some)

text \<open>
  C1 as stated fails: with \<open>rating: 0\<close> and \<open>reviewCount: 12\<close> both are provided and
  the product has no \<open>aggregateRating\<close>.
\<close>

theorem aggregateRating_counterexample:
  "prod_rating (sampleProduct (Fin 9) (Some (Fin 0)) (Some (Fin 12))) = Some (Fin 0)
   \<and> prod_reviewCount (sampleProduct (Fin 9) (Some (Fin 0)) (Some (Fin 12))) = Some (Fin 12)
   \<and> aggregateRating (buildProductSchema samplePlatform
        (sampleProduct (Fin 9) (Some (Fin 0)) (Some (Fin 12)))) = None"
  by (simp add: sampleProduct_def buildProductSchema_def)

text \<open>C1 on a product rated \<open>4.5\<close> by \<open>12\<close> reviews.\<close>

theorem aggregateRating_when_truthy_witness:
  "\<exists>ag. aggregateRating (buildProductSchema samplePlatform
            (sampleProduct (Fin 9) (Some (Fin (9 / 2))) (Some (Fin 12)))) = Some ag
     \<and> ratingValue ag = Fin (9 / 2) \<and> reviewCount ag = Fin 12"
proof -
  let ?args = "sampleProduct (Fin 9) (Some (Fin (9 / 2))) (Some (Fin 12))"
  have r: "prod_rating ?args = Some (Fin (9 / 2))" and c: "prod_reviewCount ?args = Some (Fin 12)"
    by (simp_all add: sampleProduct_def)
  from aggregateRating_when_truthy [of samplePlatform ?args] r c
  have "aggregateRating (buildProductSchema samplePlatform ?args) \<noteq> None"
    by simp
  then obtain ag where ag: "aggregateRating (buildProductSchema samplePlatform ?args) = Some ag"
    by auto
  with aggregateRating_when_truthy [of samplePlatform ?args] r c
  have "ratingValue ag = Fin (9 / 2) \<and> reviewCount ag = Fin 12"
    by simp
  with ag show ?thesis by blast
qed

text \<open>
  Claim C7, as the code has it. For a finite price of magnitude below \<open>10^21\<close>, the
  \<open>price\<close> of the offer is a minus sign if the price is negative, the digits of the whole
  part, a decimal point and exactly two decimal digits, of the magnitude rounded to the
  nearest hundredth (\<open>9\<close> gives \<open>"9.00"\<close>); \<open>NaN\<close> and the infinities are rendered as
  \<open>"NaN"\<close>, \<open>"Infinity"\<close> and \<open>"-Infinity"\<close>.
\<close>

theorem price_two_decimals_when_finite:
  "(prod_price args = Fin r \<and> \<bar>r\<bar> < 10 ^ 21 \<longrightarrow>
      price (offers (buildProductSchema P args)) =
        (if r < 0 then lit ''-'' else [])
        @ digitsOf (nat \<lfloor>\<bar>r\<bar> * 100 + 1 / 2\<rfloor> div 100)
        @ lit ''.''
        @ [digitChar (nat \<lfloor>\<bar>r\<bar> * 100 + 1 / 2\<rfloor> div 10 mod 10),
           digitChar (nat \<lfloor>\<bar>r\<bar> * 100 + 1 / 2\<rfloor> mod 10)]
      \<and> twoDecimalDigits (price (offers (buildProductSchema P args))))
   \<and> (prod_price args = Fin 9 \<longrightarrow> price (offers (buildProductSchema P args)) = lit ''9.00'')
   \<and> (prod_price args = NaN \<longrightarrow> price (offers (buildProductSchema P args)) = lit ''NaN'')
   \<and> (prod_price args = PosInfinity \<longrightarrow> price (offers (buildProductSchema P args)) = lit ''Infinity'')
   \<and> (prod_price args = NegInfinity \<longrightarrow> price (offers (buildProductSchema P args)) = lit ''-Infinity'')"
proof (intro conjI impI)
  assume a: "prod_price args = Fin r \<and> \<bar>r\<bar> < 10 ^ 21"
  let ?n = "nat \<lfloor>\<bar>r\<bar> * 100 + 1 / 2\<rfloor>"
  have p: "price (offers (buildProductSchema P args)) = toFixed (numberToString P) (Fin r) 2"
    using a by (simp add: buildProductSchema_def)
  from a have f: "toFixed (numberToString P) (Fin r) 2 =
      (if r < 0 then lit ''-'' else []) @ digitsOf (?n div 100)
      @ [0x2E, digitChar (?n div 10 mod 10), digitChar (?n mod 10)]"
    using toFixed2_finite [of r "numberToString P"] by simp
  show "price (offers (buildProductSchema P args)) =
        (if r < 0 then lit ''-'' else []) @ digitsOf (?n div 100) @ lit ''.''
        @ [digitChar (?n div 10 mod 10), digitChar (?n mod 10)]"
    unfolding p f by (simp add: lit_def)
  have d: "isDigit (digitChar (?n div 10 mod 10))" "isDigit (digitChar (?n mod 10))"
    by (simp_all add: isDigit_digitChar)
  show "twoDecimalDigits (price (offers (buildProductSchema P args)))"
  proof (cases "r < 0")
    case True
    have "twoDecimalDigits (lit ''-'' @ digitsOf (?n div 100)
        @ [0x2E, digitChar (?n div 10 mod 10), digitChar (?n mod 10)])"
      by (rule twoDecimalDigits_shape(2) [OF digitsOf_digits digitsOf_nonempty d])
    then show ?thesis
      unfolding p f using True by (simp only: if_True)
  next
    case False
    have "twoDecimalDigits (digitsOf (?n div 100)
        @ [0x2E, digitChar (?n div 10 mod 10), digitChar (?n mod 10)])"
      by (rule twoDecimalDigits_shape(1) [OF digitsOf_digits digitsOf_nonempty d])
    then show ?thesis
      unfolding p f using False by (simp only: if_False append_Nil)
  qed
next
  assume a: "prod_price args = Fin 9"
  have "toFixed (numberToString P) (Fin 9) 2 = lit ''9.00''"
    using toFixed2_finite [of 9 "numberToString P"]
    by (simp add: floor_rat_numeral digitsOf_small digitChar_def lit_def)
  with a show "price (offers (buildProductSchema P args)) = lit ''9.00''"
    by (simp add: buildProductSchema_def)
next
  assume "prod_price args = NaN"
  then show "price (offers (buildProductSchema P args)) = lit ''NaN''"
    by (simp add: buildProductSchema_def toFixed_def)
next
  assume "prod_price args = PosInfinity"
  then show "price (offers (buildProductSchema P args)) = lit ''Infinity''"
    by (simp add: buildProductSchema_def toFixed_def)
next
  assume "prod_price args = NegInfinity"
  then show "price (offers (buildProductSchema P args)) = lit ''-Infinity''"
    by (simp add: buildProductSchema_def toFixed_def)
qed

text \<open>C7 as stated fails: the price \<open>NaN\<close> is rendered as \<open>"NaN"\<close>, with no decimal digits.\<close>

theorem price_two_decimals_counterexample:
  "prod_price (sampleProduct NaN None None) = NaN
   \<and> price (offers (buildProductSchema samplePlatform (sampleProduct NaN None None))) = lit ''NaN''
   \<and> \<not> twoDecimalDigits (price (offers (buildProductSchema samplePlatform (sampleProduct NaN None None))))"
  by (simp add: sampleProduct_def buildProductSchema_def toFixed_def twoDecimalDigits_def lit_def)

text \<open>C7 at the prices \<open>-1.999\<close>, \<open>9\<close> and \<open>Infinity\<close>.\<close>

theorem price_two_decimals_when_finite_witness:
  "prod_price (sampleProduct (Fin (- (1999 / 1000))) None None) = Fin (- (1999 / 1000))
   \<and> \<bar>- (1999 / 1000) :: rat\<bar> < 10 ^ 21
   \<and> price (offers (buildProductSchema samplePlatform (sampleProduct (Fin (- (1999 / 1000))) None None)))
       = lit ''-2.00''
   \<and> prod_price (sampleProduct (Fin 9) None None) = Fin 9
   \<and> price (offers (buildProductSchema samplePlatform (sampleProduct (Fin 9) None None))) = lit ''9.00''
   \<and> prod_price (sampleProduct PosInfinity None None) = PosInfinity
   \<and> price (offers (buildProductSchema samplePlatform (sampleProduct PosInfinity None None)))
       = lit ''Infinity''"
proof -
  have h1: "prod_price (sampleProduct (Fin (- (1999 / 1000))) None None) = Fin (- (1999 / 1000))"
    and h2: "prod_price (sampleProduct (Fin 9) None None) = Fin 9"
    and h3: "prod_price (sampleProduct PosInfinity None None) = PosInfinity"
    by (simp_all add: sampleProduct_def)
  have b: "\<bar>- (1999 / 1000) :: rat\<bar> < 10 ^ 21"
    by simp
  have n: "nat \<lfloor>\<bar>- (1999 / 1000) :: rat\<bar> * 100 + 1 / 2\<rfloor> = 200"
    by (simp add: floor_rat_numeral)
  from price_two_decimals_when_finite
         [of "sampleProduct (Fin (- (1999 / 1000))) None None" "- (1999 / 1000)" samplePlatform] h1 b
  have "price (offers (buildProductSchema samplePlatform (sampleProduct (Fin (- (1999 / 1000))) None None)))
       = lit ''-2.00''"
    unfolding n by (simp add: digitsOf_small digitChar_def lit_def)
  moreover from price_two_decimals_when_finite [of "sampleProduct (Fin 9) None None" 0 samplePlatform] h2
  have "price (offers (buildProductSchema samplePlatform (sampleProduct (Fin 9) None None))) = lit ''9.00''"
    by blast
  moreover from price_two_decimals_when_finite [of "sampleProduct PosInfinity None None" 0 samplePlatform] h3
  have "price (offers (buildProductSchema samplePlatform (sampleProduct PosInfinity None None)))
       = lit ''Infinity''"
    by blast
  ultimately show ?thesis using h1 h2 h3 b by blast
qed

end
